theory Spec2Isabelle
  imports Main "HOL-Library.Sublist" "HOL-Library.Multiset"
begin

section \<open>The host underneath the sandbox\<close>

text \<open>
  The file \<^verbatim>\<open>src/sandbox/freebsd-sandbox-utils.ts\<close> builds strings and touches the
  host through library calls. The library calls are parameters of the model, collected
  in one record; the file system is a state of an arbitrary type \<open>'fs\<close> that the calls
  read and update.

  \<^item> \<open>existsSync\<close>, \<open>mkdirSync\<close> (always called with \<^verbatim>\<open>recursive: true\<close>),
    \<open>writeFileSync\<close> (always called with empty contents) are \<^verbatim>\<open>node:fs\<close>;
    \<open>isDirectory fs p\<close> is \<^verbatim>\<open>fs.statSync(p).isDirectory()\<close>;
  \<^item> \<open>path_join\<close> is \<^verbatim>\<open>join\<close> of \<^verbatim>\<open>node:path\<close>, \<open>tmpdir\<close> is \<^verbatim>\<open>tmpdir()\<close> of
    \<^verbatim>\<open>node:os\<close>, \<open>cwd\<close> is \<^verbatim>\<open>process.cwd()\<close>;
  \<^item> \<open>randomHex n\<close> is what the \<open>n\<close>-th call of \<^verbatim>\<open>randomBytes(8).toString('hex')\<close>
    returns in this process;
  \<^item> \<open>normalizePathForSandbox\<close>, \<open>getMandatoryDenyWithinAllow\<close> and
    \<open>generateProxyEnvVars\<close> (called with the ports 3128 and 1080 only) are the
    collaborators imported from \<^verbatim>\<open>sandbox-utils.js\<close>, whose code is not part of this
    file: the first is taken as a function of the path alone, the other two as fixed
    lists;
  \<^item> \<open>shellquote\<close> is \<^verbatim>\<open>quote\<close> of the package \<^verbatim>\<open>shell-quote\<close>.

  Library calls return normally in the model: a call that throws (a directory that
  cannot be created, say) ends the construction with that error and is outside the
  properties below. \<^verbatim>\<open>logForDebugging\<close> has no effect on any result and is left out.
\<close>

record 'fs host =
  existsSync :: "'fs \<Rightarrow> string \<Rightarrow> bool"
  isDirectory :: "'fs \<Rightarrow> string \<Rightarrow> bool"
  mkdirSync :: "'fs \<Rightarrow> string \<Rightarrow> 'fs"
  writeFileSync :: "'fs \<Rightarrow> string \<Rightarrow> 'fs"
  path_join :: "string \<Rightarrow> string \<Rightarrow> string"
  tmpdir :: string
  cwd :: string
  randomHex :: "nat \<Rightarrow> string"
  normalizePathForSandbox :: "string \<Rightarrow> string"
  getMandatoryDenyWithinAllow :: "string list"
  generateProxyEnvVars :: "string list"
  shellquote :: "string list \<Rightarrow> string"

text \<open>The state a call runs in: the file system and the number of random draws so far.\<close>

record 'fs world =
  fsys :: 'fs
  draws :: nat

text \<open>
  The recurring statement
  \<^verbatim>\<open>if (!fs.existsSync(d)) { fs.mkdirSync(d, { recursive: true }) }\<close>.
\<close>

definition ensureDir :: "'fs host \<Rightarrow> string \<Rightarrow> 'fs world \<Rightarrow> 'fs world" where
  "ensureDir h d w =
     (if \<not> existsSync h (fsys w) d then w\<lparr>fsys := mkdirSync h (fsys w) d\<rparr> else w)"

section \<open>The mount planner: generateJailFilesystemConfig\<close>

record FsReadRestrictionConfig =
  denyOnly :: "string list option"

record FsWriteRestrictionConfig =
  allowOnly :: "string list option"
  denyWithinAllow :: "string list option"

text \<open>\<^verbatim>\<open>xs || []\<close> for an optional array.\<close>

definition orEmpty :: "string list option \<Rightarrow> string list" where
  "orEmpty xs = (case xs of None \<Rightarrow> [] | Some ys \<Rightarrow> ys)"

text \<open>\<^verbatim>\<open>s.startsWith('/dev/')\<close>.\<close>

definition startsWithDev :: "string \<Rightarrow> bool" where
  "startsWithDev s = prefix ''/dev/'' s"

text \<open>
  The two arrays \<^verbatim>\<open>mounts\<close> and \<^verbatim>\<open>unmounts\<close> and the world, threaded through the
  loops of the planner.
\<close>

type_synonym 'fs plan = "string list \<times> string list \<times> 'fs world"

definition essentialDirs :: "string list" where
  "essentialDirs = [''/dev'', ''/tmp'', ''/var/tmp'', ''/etc'', ''/usr'', ''/bin'']"

fun createEssentialDirs :: "'fs host \<Rightarrow> string \<Rightarrow> string list \<Rightarrow> 'fs world \<Rightarrow> 'fs world" where
  "createEssentialDirs h jailPath [] w = w"
| "createEssentialDirs h jailPath (dir # dirs) w =
     createEssentialDirs h jailPath dirs (ensureDir h (path_join h jailPath dir) w)"

text \<open>The table \<^verbatim>\<open>essentialMounts\<close>: source, destination, mode.\<close>

definition essentialMounts :: "'fs host \<Rightarrow> string \<Rightarrow> (string \<times> string \<times> string) list" where
  "essentialMounts h jailPath =
     [(''/dev'', path_join h jailPath ''dev'', ''rw''),
      (''/usr'', path_join h jailPath ''usr'', ''ro''),
      (''/bin'', path_join h jailPath ''bin'', ''ro''),
      (''/lib'', path_join h jailPath ''lib'', ''ro''),
      (''/libexec'', path_join h jailPath ''libexec'', ''ro''),
      (''/etc'', path_join h jailPath ''etc'', ''ro'')]"

fun mountEssentials :: "'fs host \<Rightarrow> (string \<times> string \<times> string) list \<Rightarrow> 'fs plan \<Rightarrow> 'fs plan" where
  "mountEssentials h [] acc = acc"
| "mountEssentials h ((src, dst, mode) # rest) (mounts, unmounts, w) =
     (if \<not> existsSync h (fsys w) src then mountEssentials h rest (mounts, unmounts, w)
      else
        mountEssentials h rest
          (mounts @ [''mount_nullfs '' @ (if mode = ''ro'' then ''-o ro'' else '''') @ '' '' @ src @ '' '' @ dst],
           unmounts @ [''umount '' @ dst],
           ensureDir h dst w))"

text \<open>
  The mount point of a policy path and the directory created for it:
  \<^verbatim>\<open>jailMountPoint = join(jailPath, normalizedPath)\<close> and
  \<^verbatim>\<open>jailMountDir = isDirectory ? jailMountPoint : join(jailMountPoint, '..')\<close>.
\<close>

definition jailMountDir :: "'fs host \<Rightarrow> 'fs world \<Rightarrow> string \<Rightarrow> string \<Rightarrow> string" where
  "jailMountDir h w normalizedPath jailMountPoint =
     (if isDirectory h (fsys w) normalizedPath then jailMountPoint
      else path_join h jailMountPoint ''..'')"

text \<open>The loop over \<^verbatim>\<open>writeConfig.allowOnly || []\<close>.\<close>

fun mountAllowed :: "'fs host \<Rightarrow> string \<Rightarrow> string list \<Rightarrow> 'fs plan \<Rightarrow> 'fs plan" where
  "mountAllowed h jailPath [] acc = acc"
| "mountAllowed h jailPath (pathPattern # rest) (mounts, unmounts, w) =
     (let normalizedPath = normalizePathForSandbox h pathPattern in
      if startsWithDev normalizedPath then mountAllowed h jailPath rest (mounts, unmounts, w)
      else if \<not> existsSync h (fsys w) normalizedPath
        then mountAllowed h jailPath rest (mounts, unmounts, w)
      else
        let jailMountPoint = path_join h jailPath normalizedPath in
        mountAllowed h jailPath rest
          (mounts @ [''mount_nullfs '' @ normalizedPath @ '' '' @ jailMountPoint],
           unmounts @ [''umount '' @ jailMountPoint],
           ensureDir h (jailMountDir h w normalizedPath jailMountPoint) w))"

text \<open>The loop over \<^verbatim>\<open>denyPaths\<close>: the read-only remounts.\<close>

fun remountDenied :: "'fs host \<Rightarrow> string \<Rightarrow> string list \<Rightarrow> 'fs plan \<Rightarrow> 'fs plan" where
  "remountDenied h jailPath [] acc = acc"
| "remountDenied h jailPath (pathPattern # rest) (mounts, unmounts, w) =
     (let normalizedPath = normalizePathForSandbox h pathPattern in
      if startsWithDev normalizedPath then remountDenied h jailPath rest (mounts, unmounts, w)
      else if \<not> existsSync h (fsys w) normalizedPath
        then remountDenied h jailPath rest (mounts, unmounts, w)
      else
        let jailMountPoint = path_join h jailPath normalizedPath in
        remountDenied h jailPath rest
          (mounts @ [''mount_nullfs -o ro '' @ normalizedPath @ '' '' @ jailMountPoint],
           unmounts @ [''umount '' @ jailMountPoint],
           ensureDir h (jailMountDir h w normalizedPath jailMountPoint) w))"

text \<open>
  The loop over \<^verbatim>\<open>readConfig.denyOnly\<close>. The second \<^verbatim>\<open>statSync\<close> runs after the
  directory has been created; the empty file takes one random draw.
\<close>

fun hideDenied :: "'fs host \<Rightarrow> string \<Rightarrow> string list \<Rightarrow> 'fs plan \<Rightarrow> 'fs plan" where
  "hideDenied h jailPath [] acc = acc"
| "hideDenied h jailPath (pathPattern # rest) (mounts, unmounts, w) =
     (let normalizedPath = normalizePathForSandbox h pathPattern in
      if \<not> existsSync h (fsys w) normalizedPath
        then hideDenied h jailPath rest (mounts, unmounts, w)
      else
        let jailMountPoint = path_join h jailPath normalizedPath;
            w1 = ensureDir h (jailMountDir h w normalizedPath jailMountPoint) w
        in
        if isDirectory h (fsys w1) normalizedPath then
          hideDenied h jailPath rest
            (mounts @ [''mount -t tmpfs tmpfs '' @ jailMountPoint],
             unmounts @ [''umount '' @ jailMountPoint],
             w1)
        else
          let emptyFile = path_join h (tmpdir h) (''empty-'' @ randomHex h (draws w1));
              w2 = w1\<lparr>draws := Suc (draws w1)\<rparr>;
              w3 = w2\<lparr>fsys := writeFileSync h (fsys w2) emptyFile\<rparr>
          in
          hideDenied h jailPath rest
            (mounts @ [''mount_nullfs -o ro '' @ emptyFile @ '' '' @ jailMountPoint],
             unmounts @ [''umount '' @ jailMountPoint],
             w3))"

text \<open>The write-policy branch: \<^verbatim>\<open>if (writeConfig) { ... } else { ... }\<close>.\<close>

definition writePhase ::
  "'fs host \<Rightarrow> string \<Rightarrow> FsWriteRestrictionConfig option \<Rightarrow> 'fs plan \<Rightarrow> 'fs plan" where
  "writePhase h jailPath writeConfig acc =
     (case writeConfig of
        Some wc \<Rightarrow>
          remountDenied h jailPath
            (orEmpty (denyWithinAllow wc) @ getMandatoryDenyWithinAllow h)
            (mountAllowed h jailPath (orEmpty (allowOnly wc)) acc)
      | None \<Rightarrow>
          (case acc of (mounts, unmounts, w) \<Rightarrow>
             let cwdJail = path_join h jailPath (cwd h) in
             (mounts @ [''mount_nullfs '' @ cwd h @ '' '' @ cwdJail],
              unmounts @ [''umount '' @ cwdJail],
              ensureDir h cwdJail w)))"

text \<open>The read-policy branch: \<^verbatim>\<open>if (readConfig?.denyOnly) { ... }\<close>.\<close>

definition readPhase ::
  "'fs host \<Rightarrow> string \<Rightarrow> FsReadRestrictionConfig option \<Rightarrow> 'fs plan \<Rightarrow> 'fs plan" where
  "readPhase h jailPath readConfig acc =
     (case readConfig of
        None \<Rightarrow> acc
      | Some rc \<Rightarrow>
          (case denyOnly rc of
             None \<Rightarrow> acc
           | Some paths \<Rightarrow> hideDenied h jailPath paths acc))"

definition generateJailFilesystemConfig ::
  "'fs host \<Rightarrow> string \<Rightarrow> FsReadRestrictionConfig option \<Rightarrow> FsWriteRestrictionConfig option \<Rightarrow>
   'fs world \<Rightarrow> 'fs plan" where
  "generateJailFilesystemConfig h jailPath readConfig writeConfig w =
     readPhase h jailPath readConfig
       (writePhase h jailPath writeConfig
          (mountEssentials h (essentialMounts h jailPath)
             ([], [], createEssentialDirs h jailPath essentialDirs w)))"

section \<open>The jail command builder and the orchestrator\<close>

text \<open>\<^verbatim>\<open>Array.prototype.join\<close>.\<close>

fun joinWith :: "string \<Rightarrow> string list \<Rightarrow> string" where
  "joinWith sep [] = []"
| "joinWith sep [x] = x"
| "joinWith sep (x # y # rest) = x @ sep @ joinWith sep (y # rest)"

definition buildJailCommand :: "'fs host \<Rightarrow> string \<Rightarrow> string \<Rightarrow> string \<Rightarrow> string" where
  "buildJailCommand h httpSocket socksSocket userCommand =
     (let innerScript = joinWith [CHR 0x0A]
        [''socat TCP-LISTEN:3128,fork,reuseaddr UNIX-CONNECT:'' @ httpSocket @ '' >/dev/null 2>&1 &'',
         ''socat TCP-LISTEN:1080,fork,reuseaddr UNIX-CONNECT:'' @ socksSocket @ '' >/dev/null 2>&1 &'',
         ''trap '' @ [CHR 0x22] @ ''kill %1 %2 2>/dev/null; exit'' @ [CHR 0x22] @ '' EXIT'',
         ''eval '' @ shellquote h [userCommand]]
      in ''sh -c '' @ shellquote h [innerScript])"

record FreeBSDSandboxParams =
  command :: string
  hasNetworkRestrictions :: bool
  hasFilesystemRestrictions :: bool
  httpSocketPath :: "string option"
  socksSocketPath :: "string option"
  httpProxyPort :: "nat option"
  socksProxyPort :: "nat option"
  readConfig :: "FsReadRestrictionConfig option"
  writeConfig :: "FsWriteRestrictionConfig option"

text \<open>
  The one error the orchestrator throws itself:
  \<^verbatim>\<open>'FreeBSD network sandboxing was requested but bridge socket paths are not available'\<close>.
\<close>

datatype sandbox_error = MissingBridgeConfig

text \<open>
  The local arrays \<^verbatim>\<open>mounts\<close>, \<^verbatim>\<open>unmounts\<close> and \<^verbatim>\<open>jailArgs\<close> and the world as they
  stand when the call ends, by \<^verbatim>\<open>return\<close> or by \<^verbatim>\<open>throw\<close>. The caller of the source
  sees the world only; the arrays are kept so that what had been built at a \<^verbatim>\<open>throw\<close>
  can be stated.
\<close>

record 'fs built =
  builtMounts :: "string list"
  builtUnmounts :: "string list"
  builtJailArgs :: "string list"
  after :: "'fs world"

text \<open>A JavaScript string is truthy when it is present and not empty.\<close>

definition truthy :: "string option \<Rightarrow> string option" where
  "truthy s = (case s of None \<Rightarrow> None | Some v \<Rightarrow> if v = [] then None else Some v)"

text \<open>The block \<^verbatim>\<open>if (hasNetworkRestrictions) { ... } else { ... }\<close>.\<close>

definition configureNetwork ::
  "'fs host \<Rightarrow> string \<Rightarrow> FreeBSDSandboxParams \<Rightarrow> 'fs built \<Rightarrow> sandbox_error + 'fs built" where
  "configureNetwork h jailPath p b =
     (if hasNetworkRestrictions p then
        (case truthy (httpSocketPath p) of
           None \<Rightarrow> Inl MissingBridgeConfig
         | Some http \<Rightarrow>
            (case truthy (socksSocketPath p) of
               None \<Rightarrow> Inl MissingBridgeConfig
             | Some socks \<Rightarrow>
                 let httpSocketJail = path_join h jailPath http;
                     socksSocketJail = path_join h jailPath socks;
                     httpSocketDir = path_join h httpSocketJail ''..'';
                     socksSocketDir = path_join h socksSocketJail ''..''
                 in Inr \<lparr>builtMounts = builtMounts b @
                            [''mount_nullfs '' @ http @ '' '' @ httpSocketJail,
                             ''mount_nullfs '' @ socks @ '' '' @ socksSocketJail],
                          builtUnmounts =
                            (''umount '' @ socksSocketJail) # (''umount '' @ httpSocketJail) #
                            builtUnmounts b,
                          builtJailArgs = builtJailArgs b @ [''vnet'', ''allow.raw_sockets=1''],
                          after = ensureDir h socksSocketDir (ensureDir h httpSocketDir (after b))\<rparr>))
      else Inr (b\<lparr>builtJailArgs := builtJailArgs b @ [''ip4=inherit'', ''ip6=inherit'']\<rparr>))"

text \<open>\<^verbatim>\<open>env.indexOf('=')\<close>, \<^verbatim>\<open>env.slice(0, firstEq)\<close> and \<^verbatim>\<open>env.slice(firstEq + 1)\<close>.\<close>

definition indexOfEq :: "string \<Rightarrow> int" where
  "indexOfEq env =
     (let n = length (takeWhile (\<lambda>c. c \<noteq> CHR ''='') env)
      in if n < length env then int n else - 1)"

definition sliceTo :: "string \<Rightarrow> int \<Rightarrow> string" where
  "sliceTo s e = (if e < 0 then take (nat (int (length s) + e)) s else take (nat e) s)"

definition sliceFrom :: "string \<Rightarrow> int \<Rightarrow> string" where
  "sliceFrom s b = (if b < 0 then drop (nat (int (length s) + b)) s else drop (nat b) s)"

definition envArg :: "string \<Rightarrow> string" where
  "envArg env =
     (let firstEq = indexOfEq env
      in ''env.'' @ sliceTo env firstEq @ ''='' @ sliceFrom env (firstEq + 1))"

text \<open>\<^verbatim>\<open>jailCommand.replace(/'/g, "'\\''")\<close>.\<close>

definition escapeSingleQuotes :: "string \<Rightarrow> string" where
  "escapeSingleQuotes s =
     concat (map (\<lambda>c. if c = CHR 0x27 then [CHR 0x27, CHR 0x5C, CHR 0x27, CHR 0x27] else [c]) s)"

text \<open>The command run inside the jail, and the jail arguments it adds.\<close>

definition jailCommandArgs :: "'fs host \<Rightarrow> FreeBSDSandboxParams \<Rightarrow> string list" where
  "jailCommandArgs h p =
     (case (if hasNetworkRestrictions p then truthy (httpSocketPath p) else None) of
        None \<Rightarrow> [''command=sh -c '' @ [CHR 0x27] @ escapeSingleQuotes (command p) @ [CHR 0x27]]
      | Some http \<Rightarrow>
         (case truthy (socksSocketPath p) of
            None \<Rightarrow> [''command=sh -c '' @ [CHR 0x27] @ escapeSingleQuotes (command p) @ [CHR 0x27]]
          | Some socks \<Rightarrow>
              map envArg (generateProxyEnvVars h) @
              [''command=sh -c '' @ [CHR 0x27] @
               escapeSingleQuotes (buildJailCommand h http socks (command p)) @ [CHR 0x27]]))"

text \<open>The wrapper script, before it is quoted as the argument of \<^verbatim>\<open>sh -c\<close>.\<close>

definition wrapperScript :: "'fs host \<Rightarrow> string \<Rightarrow> string list \<Rightarrow> string list \<Rightarrow> string list \<Rightarrow> string" where
  "wrapperScript h jailPath mounts unmounts jailArgs =
     (let setupScript = joinWith '' && '' mounts;
          cleanupScript = joinWith ''; '' unmounts;
          jailCmd = shellquote h (''jail'' # jailArgs)
      in joinWith '' && ''
           [setupScript, jailCmd, ''EXIT_CODE=$?'', cleanupScript, ''rm -rf '' @ jailPath,
            ''exit $EXIT_CODE''])"

definition jailNameOf :: "'fs host \<Rightarrow> 'fs world \<Rightarrow> string" where
  "jailNameOf h w = ''sbx_'' @ randomHex h (draws w)"

definition jailPathOf :: "'fs host \<Rightarrow> 'fs world \<Rightarrow> string" where
  "jailPathOf h w = path_join h (tmpdir h) (jailNameOf h w)"

text \<open>
  The state in which the planner is called: one random draw taken, the jail root created.
\<close>

definition worldAtPlanning :: "'fs host \<Rightarrow> 'fs world \<Rightarrow> 'fs world" where
  "worldAtPlanning h w = ensureDir h (jailPathOf h w) (w\<lparr>draws := Suc (draws w)\<rparr>)"

definition wrapCommandWithSandboxFreeBSD ::
  "'fs host \<Rightarrow> FreeBSDSandboxParams \<Rightarrow> 'fs world \<Rightarrow> (sandbox_error + string) \<times> 'fs built" where
  "wrapCommandWithSandboxFreeBSD h p w =
     (if \<not> hasNetworkRestrictions p \<and> \<not> hasFilesystemRestrictions p then
        (Inr (command p),
         \<lparr>builtMounts = [], builtUnmounts = [], builtJailArgs = [], after = w\<rparr>)
      else
        let jailName = jailNameOf h w;
            jailPath = jailPathOf h w
        in
        (case generateJailFilesystemConfig h jailPath (readConfig p) (writeConfig p)
                (worldAtPlanning h w) of
           (mounts, unmounts, w1) \<Rightarrow>
             let b = \<lparr>builtMounts = mounts, builtUnmounts = unmounts,
                      builtJailArgs =
                        [''-c'', ''name='' @ jailName, ''path='' @ jailPath,
                         ''host.hostname='' @ jailName],
                      after = w1\<rparr>
             in
             (case configureNetwork h jailPath p b of
                Inl e \<Rightarrow> (Inl e, b)
              | Inr b1 \<Rightarrow>
                  let jailArgs = builtJailArgs b1 @
                        [''persist=0'', ''allow.mount=0'', ''allow.set_hostname=0'',
                         ''allow.sysvipc=0''] @
                        jailCommandArgs h p;
                      b2 = b1\<lparr>builtJailArgs := jailArgs\<rparr>
                  in
                  (Inr (''sh -c '' @
                        shellquote h
                          [wrapperScript h jailPath (builtMounts b1) (builtUnmounts b1) jailArgs]),
                   b2))))"

section \<open>The wrapper script as a shell reads it\<close>

text \<open>
  The wrapper script is a list of simple commands separated by \<^verbatim>\<open>&&\<close> and \<^verbatim>\<open>;\<close>.
  Three kinds of simple command occur: a command that is run (a mount, the jail, an
  unmount, the removal of the jail root), the assignment \<^verbatim>\<open>EXIT_CODE=$?\<close> and
  \<^verbatim>\<open>exit $EXIT_CODE\<close>. \<open>wrapperTokens\<close> builds the token list by the same joins as
  \<open>wrapperScript\<close> builds the text; \<open>render\<close> gives the text back.
\<close>

datatype shell_word = Run string | CaptureStatus | ExitCaptured

datatype shell_tok = Simple shell_word | AndIf | Semi

fun render_word :: "shell_word \<Rightarrow> string" where
  "render_word (Run c) = c"
| "render_word CaptureStatus = ''EXIT_CODE=$?''"
| "render_word ExitCaptured = ''exit $EXIT_CODE''"

fun render_tok :: "shell_tok \<Rightarrow> string" where
  "render_tok (Simple wd) = render_word wd"
| "render_tok AndIf = '' && ''"
| "render_tok Semi = ''; ''"

definition render :: "shell_tok list \<Rightarrow> string" where
  "render toks = concat (map render_tok toks)"

fun joinToks :: "shell_tok \<Rightarrow> shell_tok list list \<Rightarrow> shell_tok list" where
  "joinToks sep [] = []"
| "joinToks sep [x] = x"
| "joinToks sep (x # y # rest) = x @ [sep] @ joinToks sep (y # rest)"

definition wrapperTokens :: "string \<Rightarrow> string list \<Rightarrow> string list \<Rightarrow> string \<Rightarrow> shell_tok list" where
  "wrapperTokens jailPath mounts unmounts jailCmd =
     joinToks AndIf
       [joinToks AndIf (map (\<lambda>m. [Simple (Run m)]) mounts),
        [Simple (Run jailCmd)],
        [Simple CaptureStatus],
        joinToks Semi (map (\<lambda>u. [Simple (Run u)]) unmounts),
        [Simple (Run (''rm -rf '' @ jailPath))],
        [Simple ExitCaptured]]"

text \<open>
  The shell: \<open>lastStatus\<close> is \<^verbatim>\<open>$?\<close>, \<open>skipping\<close> says that the rest of the current
  \<^verbatim>\<open>&&\<close> list is not run, \<open>captured\<close> is the variable \<^verbatim>\<open>EXIT_CODE\<close>, \<open>finished\<close> the
  status the script has exited with, \<open>attempted\<close> the commands that were run, in order.
  \<^verbatim>\<open>&&\<close> binds tighter than \<^verbatim>\<open>;\<close>: a failed command skips everything up to the
  next \<^verbatim>\<open>;\<close>. \<^verbatim>\<open>exit\<close> with an empty operand exits with \<^verbatim>\<open>$?\<close>. The exit status of
  a command that is run is given by \<open>run\<close>.
\<close>

record shell_state =
  lastStatus :: nat
  skipping :: bool
  captured :: "nat option"
  finished :: "nat option"
  attempted :: "string list"

definition shellStart :: shell_state where
  "shellStart = \<lparr>lastStatus = 0, skipping = False, captured = None, finished = None, attempted = []\<rparr>"

fun shellWord :: "(string \<Rightarrow> nat) \<Rightarrow> shell_word \<Rightarrow> shell_state \<Rightarrow> shell_state" where
  "shellWord run (Run c) s = s\<lparr>lastStatus := run c, attempted := attempted s @ [c]\<rparr>"
| "shellWord run CaptureStatus s = s\<lparr>captured := Some (lastStatus s), lastStatus := 0\<rparr>"
| "shellWord run ExitCaptured s =
     s\<lparr>finished := Some (case captured s of Some v \<Rightarrow> v | None \<Rightarrow> lastStatus s)\<rparr>"

fun shellStep :: "(string \<Rightarrow> nat) \<Rightarrow> shell_tok \<Rightarrow> shell_state \<Rightarrow> shell_state" where
  "shellStep run tok s =
     (if finished s \<noteq> None then s
      else case tok of
        Simple wd \<Rightarrow> if skipping s then s else shellWord run wd s
      | AndIf \<Rightarrow> s\<lparr>skipping := (lastStatus s \<noteq> 0)\<rparr>
      | Semi \<Rightarrow> s\<lparr>skipping := False\<rparr>)"

definition runScript :: "(string \<Rightarrow> nat) \<Rightarrow> shell_tok list \<Rightarrow> shell_state" where
  "runScript run toks = fold (shellStep run) toks shellStart"

definition scriptStatus :: "shell_state \<Rightarrow> nat" where
  "scriptStatus s = (case finished s of Some v \<Rightarrow> v | None \<Rightarrow> lastStatus s)"

section \<open>The dependency check and its cache\<close>

text \<open>
  \<^verbatim>\<open>spawnSync('which', [tool], ...)\<close> either throws or returns an object whose
  \<^verbatim>\<open>status\<close> is a number or \<^verbatim>\<open>null\<close>. The module variable
  \<^verbatim>\<open>freebsdDepsCache\<close> is the state: \<open>None\<close> is \<^verbatim>\<open>undefined\<close>.
\<close>

datatype spawn_outcome = Threw | Returned "int option"

definition probeDependencies :: "(string \<Rightarrow> spawn_outcome) \<Rightarrow> bool" where
  "probeDependencies which =
     (case which ''jail'' of
        Threw \<Rightarrow> False
      | Returned jailStatus \<Rightarrow>
         (case which ''socat'' of
            Threw \<Rightarrow> False
          | Returned socatStatus \<Rightarrow>
             (case which ''rg'' of
                Threw \<Rightarrow> False
              | Returned rgStatus \<Rightarrow>
                  jailStatus = Some 0 \<and> socatStatus = Some 0 \<and> rgStatus = Some 0)))"

definition hasFreeBSDSandboxDependenciesSync ::
  "(string \<Rightarrow> spawn_outcome) \<Rightarrow> bool option \<Rightarrow> bool \<times> bool option" where
  "hasFreeBSDSandboxDependenciesSync which freebsdDepsCache =
     (case freebsdDepsCache of
        Some cached \<Rightarrow> (cached, freebsdDepsCache)
      | None \<Rightarrow> (probeDependencies which, Some (probeDependencies which)))"

text \<open>
  The calls of one process, in order, each with the tools as they are installed when it
  runs: the results of all of them.
\<close>

fun dependencyCalls :: "(string \<Rightarrow> spawn_outcome) list \<Rightarrow> bool option \<Rightarrow> bool list" where
  "dependencyCalls [] cache = []"
| "dependencyCalls (which # later) cache =
     (case hasFreeBSDSandboxDependenciesSync which cache of
        (result, cache') \<Rightarrow> result # dependencyCalls later cache')"

section \<open>The bridge initializer\<close>

text \<open>
  A \<^verbatim>\<open>ChildProcess\<close> handle of \<^verbatim>\<open>node:child_process\<close>, with the fields that bear on
  liveness: \<open>pid\<close> (\<^verbatim>\<open>undefined\<close> when the spawn failed), \<open>killed\<close> (set once
  \<^verbatim>\<open>subprocess.kill()\<close> has sent a signal through this handle) and \<open>exitCode\<close>
  (\<^verbatim>\<open>null\<close> while the process runs, its exit code once it has exited).
\<close>

record child =
  pid :: "nat option"
  killed :: bool
  exitCode :: "int option"

text \<open>What one call of \<^verbatim>\<open>fs.existsSync\<close> inside the \<^verbatim>\<open>try\<close> block does.\<close>

datatype probe = Present | Absent | ProbeError

text \<open>
  The surroundings of one call: the handle \<^verbatim>\<open>spawn('socat', args)\<close> returns, the two
  handles as they are read in polling attempt \<open>i\<close>, what \<^verbatim>\<open>existsSync\<close> does in attempt
  \<open>i\<close>, and the text of a number in a template string.
\<close>

record bridge_env =
  spawned :: "string list \<Rightarrow> child"
  httpAt :: "nat \<Rightarrow> child"
  socksAt :: "nat \<Rightarrow> child"
  existsAt :: "nat \<Rightarrow> string \<Rightarrow> probe"
  numberText :: "nat \<Rightarrow> string"

text \<open>
  What the call does, in order: a spawn, the liveness test of attempt \<open>i\<close>, an
  \<^verbatim>\<open>existsSync\<close> of attempt \<open>i\<close>, a \<^verbatim>\<open>process.kill(pid, 'SIGTERM')\<close>, a wait of so
  many milliseconds.
\<close>

datatype event =
  Spawn "string list" | Liveness nat | Probe nat string | Sigterm nat | Sleep nat

text \<open>
  The errors, by their messages:
  \<^verbatim>\<open>'Failed to start HTTP bridge process'\<close>, \<^verbatim>\<open>'Failed to start SOCKS bridge process'\<close>,
  \<^verbatim>\<open>'FreeBSD bridge process died unexpectedly'\<close> and
  \<^verbatim>\<open>'Failed to create bridge sockets after 5 attempts'\<close>.
\<close>

datatype bridge_error =
  HttpBridgeStartFailure | SocksBridgeStartFailure | BridgeProcessDied | BridgeNotReady

record FreeBSDNetworkBridgeContext =
  ctxHttpSocketPath :: string
  ctxSocksSocketPath :: string
  ctxHttpBridgeProcess :: child
  ctxSocksBridgeProcess :: child
  ctxHttpProxyPort :: nat
  ctxSocksProxyPort :: nat

text \<open>\<^verbatim>\<open>!!process.pid\<close>: a pid is truthy when it is defined and not zero.\<close>

definition hasPid :: "child \<Rightarrow> bool" where
  "hasPid c = (case pid c of None \<Rightarrow> False | Some n \<Rightarrow> n \<noteq> 0)"

text \<open>\<^verbatim>\<open>if (p.pid) { try { process.kill(p.pid, 'SIGTERM') } catch { } }\<close>.\<close>

definition terminate :: "child \<Rightarrow> event list" where
  "terminate c = (case pid c of None \<Rightarrow> [] | Some n \<Rightarrow> if n \<noteq> 0 then [Sigterm n] else [])"

text \<open>
  \<^verbatim>\<open>fs.existsSync(httpSocketPath) && fs.existsSync(socksSocketPath)\<close> inside
  \<^verbatim>\<open>try { ... } catch { ... }\<close>: an exception is logged and the sockets count as not
  ready.
\<close>

definition socketsReady :: "bridge_env \<Rightarrow> string \<Rightarrow> string \<Rightarrow> nat \<Rightarrow> bool \<times> event list" where
  "socketsReady e http socks i =
     (case existsAt e i http of
        Present \<Rightarrow> (existsAt e i socks = Present, [Probe i http, Probe i socks])
      | Absent \<Rightarrow> (False, [Probe i http])
      | ProbeError \<Rightarrow> (False, [Probe i http]))"

definition maxAttempts :: nat where
  "maxAttempts = 5"

text \<open>
  The loop \<^verbatim>\<open>for (let i = 0; i < maxAttempts; i++)\<close>, from attempt \<open>i\<close> on. It returns
  the attempt in which the sockets were found.
\<close>

function waitForSockets ::
  "bridge_env \<Rightarrow> string \<Rightarrow> string \<Rightarrow> nat \<Rightarrow> event list \<Rightarrow> (bridge_error + nat) \<times> event list" where
  "waitForSockets e http socks i trace =
     (if i < maxAttempts then
        if \<not> hasPid (httpAt e i) \<or> killed (httpAt e i) \<or>
           \<not> hasPid (socksAt e i) \<or> killed (socksAt e i)
        then (Inl BridgeProcessDied, trace @ [Liveness i])
        else
          (case socketsReady e http socks i of
             (True, probes) \<Rightarrow> (Inr i, trace @ [Liveness i] @ probes)
           | (False, probes) \<Rightarrow>
               if i = maxAttempts - 1 then
                 (Inl BridgeNotReady,
                  trace @ [Liveness i] @ probes @ terminate (httpAt e i) @ terminate (socksAt e i))
               else
                 waitForSockets e http socks (Suc i)
                   (trace @ [Liveness i] @ probes @ [Sleep (i * 100)]))
      else (Inr i, trace))"
  by pat_completeness auto
termination
  by (relation "measure (\<lambda>(e, http, socks, i, trace). maxAttempts - i)") auto

declare waitForSockets.simps [simp del]

definition socatArgs :: "bridge_env \<Rightarrow> string \<Rightarrow> nat \<Rightarrow> string list" where
  "socatArgs e socketPath port =
     [''UNIX-LISTEN:'' @ socketPath @ '',fork,reuseaddr'',
      ''TCP:localhost:'' @ numberText e port @ '',keepalive,keepidle=10,keepintvl=5,keepcnt=3'']"

definition initializeFreeBSDNetworkBridge ::
  "'fs host \<Rightarrow> bridge_env \<Rightarrow> nat \<Rightarrow> nat \<Rightarrow> nat \<Rightarrow>
   (bridge_error + FreeBSDNetworkBridgeContext) \<times> event list" where
  "initializeFreeBSDNetworkBridge h e httpPort socksPort draw =
     (let socketId = randomHex h draw;
          http = path_join h (tmpdir h) (''claude-http-'' @ socketId @ ''.sock'');
          socks = path_join h (tmpdir h) (''claude-socks-'' @ socketId @ ''.sock'');
          httpSocatArgs = socatArgs e http httpPort;
          httpBridgeProcess = spawned e httpSocatArgs
      in
      if \<not> hasPid httpBridgeProcess then (Inl HttpBridgeStartFailure, [Spawn httpSocatArgs])
      else
        let socksSocatArgs = socatArgs e socks socksPort;
            socksBridgeProcess = spawned e socksSocatArgs
        in
        if \<not> hasPid socksBridgeProcess then
          (Inl SocksBridgeStartFailure,
           [Spawn httpSocatArgs, Spawn socksSocatArgs] @ terminate httpBridgeProcess)
        else
          (case waitForSockets e http socks 0 [Spawn httpSocatArgs, Spawn socksSocatArgs] of
             (Inl err, trace) \<Rightarrow> (Inl err, trace)
           | (Inr i, trace) \<Rightarrow>
               (Inr \<lparr>ctxHttpSocketPath = http, ctxSocksSocketPath = socks,
                     ctxHttpBridgeProcess = httpAt e i, ctxSocksBridgeProcess = socksAt e i,
                     ctxHttpProxyPort = httpPort, ctxSocksProxyPort = socksPort\<rparr>,
                trace)))"

section \<open>Notions the properties are stated with\<close>

text \<open>
  A mount command as the planner and the orchestrator write it: a \<^verbatim>\<open>mount_nullfs\<close> with
  the text between the command name and the source (empty, \<^verbatim>\<open>-o ro\<close> and a blank, or a
  lone blank), the source and the mount point; or a \<^verbatim>\<open>tmpfs\<close> mount on a mount point.
\<close>

datatype mount_op = Bind string string string | Tmpfs string

fun mount_command :: "mount_op \<Rightarrow> string" where
  "mount_command (Bind opts src dst) = ''mount_nullfs '' @ opts @ src @ '' '' @ dst"
| "mount_command (Tmpfs dst) = ''mount -t tmpfs tmpfs '' @ dst"

fun mount_point :: "mount_op \<Rightarrow> string" where
  "mount_point (Bind opts src dst) = dst"
| "mount_point (Tmpfs dst) = dst"

definition unmount_command :: "mount_op \<Rightarrow> string" where
  "unmount_command op = ''umount '' @ mount_point op"

text \<open>The last blank-separated word of a command line: the mount point it names.\<close>

definition lastWord :: "string \<Rightarrow> string" where
  "lastWord c = rev (takeWhile (\<lambda>x. x \<noteq> CHR '' '') (rev c))"

text \<open>
  Unmounts that undo the mounts in reverse order: the last mount is unmounted first.
\<close>

definition reversedTeardown :: "string list \<Rightarrow> string list \<Rightarrow> bool" where
  "reversedTeardown mounts unmounts \<longleftrightarrow>
     unmounts = rev (map (\<lambda>m. ''umount '' @ lastWord m) mounts)"

text \<open>How many unmount commands name the mount point of a mount command.\<close>

definition unmountsOf :: "string list \<Rightarrow> string \<Rightarrow> nat" where
  "unmountsOf unmounts m = length (filter (\<lambda>u. lastWord u = lastWord m) unmounts)"

text \<open>A path rooted under \<^verbatim>\<open>/dev\<close>, the directory itself included.\<close>

definition devRooted :: "string \<Rightarrow> bool" where
  "devRooted p \<longleftrightarrow> p = ''/dev'' \<or> prefix ''/dev/'' p"

text \<open>
  Creating a directory or writing a file leaves every path that exists in place, as the
  kind of thing it was.
\<close>

definition fs_stable :: "'fs host \<Rightarrow> bool" where
  "fs_stable h \<longleftrightarrow>
     (\<forall>fs d q. existsSync h fs q \<longrightarrow>
        existsSync h (mkdirSync h fs d) q \<and>
        existsSync h (writeFileSync h fs d) q \<and>
        isDirectory h (mkdirSync h fs d) q = isDirectory h fs q \<and>
        isDirectory h (writeFileSync h fs d) q = isDirectory h fs q)"

text \<open>Every path of the first world is in the second, as the kind of thing it was.\<close>

definition kept :: "'fs host \<Rightarrow> 'fs world \<Rightarrow> 'fs world \<Rightarrow> bool" where
  "kept h w w' \<longleftrightarrow>
     (\<forall>q. existsSync h (fsys w) q \<longrightarrow>
        existsSync h (fsys w') q \<and> isDirectory h (fsys w') q = isDirectory h (fsys w) q)"

text \<open>Nothing has been built: the three arrays are empty.\<close>

definition nothingBuilt :: "'fs built \<Rightarrow> bool" where
  "nothingBuilt b \<longleftrightarrow> builtMounts b = [] \<and> builtUnmounts b = [] \<and> builtJailArgs b = []"

text \<open>
  The second plan is the first one with the commands of \<open>ops\<close> appended to both arrays,
  mount and unmount side by side, in one order.
\<close>

definition grows :: "'fs host \<Rightarrow> 'fs plan \<Rightarrow> mount_op list \<Rightarrow> 'fs plan \<Rightarrow> bool" where
  "grows h a ops b \<longleftrightarrow>
     fst b = fst a @ map mount_command ops \<and>
     fst (snd b) = fst (snd a) @ map unmount_command ops \<and>
     (fs_stable h \<longrightarrow> kept h (snd (snd a)) (snd (snd b)))"

text \<open>
  A read-only remount of a candidate path of \<open>xs\<close> whose normalised form does not start
  with \<^verbatim>\<open>/dev/\<close>, at the same location under the jail root.
\<close>

definition denyRemount :: "'fs host \<Rightarrow> string \<Rightarrow> string list \<Rightarrow> mount_op \<Rightarrow> bool" where
  "denyRemount h J xs op \<longleftrightarrow>
     (\<exists>x \<in> set xs. \<not> startsWithDev (normalizePathForSandbox h x) \<and>
        op = Bind ''-o ro '' (normalizePathForSandbox h x)
               (path_join h J (normalizePathForSandbox h x)))"

text \<open>
  The mounts the orchestrator adds for the bridge sockets: none without network
  restriction, the HTTP socket and then the SOCKS socket with it.
\<close>

definition bridgeOps :: "'fs host \<Rightarrow> string \<Rightarrow> FreeBSDSandboxParams \<Rightarrow> mount_op list \<Rightarrow> bool" where
  "bridgeOps h J p bridge \<longleftrightarrow>
     (if hasNetworkRestrictions p then
        \<exists>http socks. httpSocketPath p = Some http \<and> socksSocketPath p = Some socks \<and>
          bridge = [Bind [] http (path_join h J http), Bind [] socks (path_join h J socks)]
      else bridge = [])"

text \<open>
  The \<^verbatim>\<open>jail\<close> command line of the wrapper script a call builds, and the token list of
  that script.
\<close>

definition jailCmdOf :: "'fs host \<Rightarrow> FreeBSDSandboxParams \<Rightarrow> 'fs world \<Rightarrow> string" where
  "jailCmdOf h p w =
     shellquote h (''jail'' # builtJailArgs (snd (wrapCommandWithSandboxFreeBSD h p w)))"

definition wrapperOf :: "'fs host \<Rightarrow> FreeBSDSandboxParams \<Rightarrow> 'fs world \<Rightarrow> shell_tok list" where
  "wrapperOf h p w =
     wrapperTokens (jailPathOf h w)
       (builtMounts (snd (wrapCommandWithSandboxFreeBSD h p w)))
       (builtUnmounts (snd (wrapCommandWithSandboxFreeBSD h p w)))
       (jailCmdOf h p w)"

text \<open>
  The liveness test of the polling loop, as the code writes it: both handles have a pid
  and neither has its \<open>killed\<close> flag set. The exit code is not part of it.
\<close>

definition passesLivenessTest :: "bridge_env \<Rightarrow> nat \<Rightarrow> bool" where
  "passesLivenessTest e i \<longleftrightarrow>
     hasPid (httpAt e i) \<and> \<not> killed (httpAt e i) \<and>
     hasPid (socksAt e i) \<and> \<not> killed (socksAt e i)"

text \<open>What attempt \<open>i\<close> does before it decides: the liveness test, then the probes.\<close>

definition attempt :: "bridge_env \<Rightarrow> string \<Rightarrow> string \<Rightarrow> nat \<Rightarrow> event list" where
  "attempt e http socks i = [Liveness i] @ snd (socketsReady e http socks i)"

section \<open>A small host to run the definitions on\<close>

text \<open>
  A file system that is a list of directories and a list of files; \<^verbatim>\<open>join\<close> for the
  arguments that occur (a relative or absolute second path, or \<^verbatim>\<open>..\<close>); a quoting
  function that joins the words with blanks, standing in for \<^verbatim>\<open>shell-quote\<close>; a
  normaliser that leaves absolute paths as they are.
\<close>

record demo_fs =
  dirs :: "string list"
  files :: "string list"

definition demoDirname :: "string \<Rightarrow> string" where
  "demoDirname p = rev (drop 1 (dropWhile (\<lambda>c. c \<noteq> CHR ''/'') (rev p)))"

definition demoJoin :: "string \<Rightarrow> string \<Rightarrow> string" where
  "demoJoin a b =
     (if b = ''..'' then demoDirname a
      else case b of
        [] \<Rightarrow> a
      | c # cs \<Rightarrow> if c = CHR ''/'' then a @ b else a @ ''/'' @ b)"

definition demoHost :: "demo_fs host" where
  "demoHost =
     \<lparr>existsSync = (\<lambda>fs p. p \<in> set (dirs fs) \<or> p \<in> set (files fs)),
      isDirectory = (\<lambda>fs p. p \<in> set (dirs fs)),
      mkdirSync = (\<lambda>fs p. if p \<in> set (files fs) then fs else fs\<lparr>dirs := p # dirs fs\<rparr>),
      writeFileSync = (\<lambda>fs p. if p \<in> set (dirs fs) then fs else fs\<lparr>files := p # files fs\<rparr>),
      path_join = demoJoin,
      tmpdir = ''/tmp'',
      cwd = ''/work'',
      randomHex = (\<lambda>n. if n = 0 then ''00c0ffee00c0ffee'' else ''1234567890abcdef''),
      normalizePathForSandbox = (\<lambda>p. p),
      getMandatoryDenyWithinAllow = [],
      generateProxyEnvVars =
        [''HTTP_PROXY=http://localhost:3128'', ''ALL_PROXY=socks5://localhost:1080''],
      shellquote = joinWith '' ''\<rparr>"

definition demoWorld :: "demo_fs world" where
  "demoWorld =
     \<lparr>fsys = \<lparr>dirs = [''/dev'', ''/etc'', ''/tmp'', ''/work'', ''/work/vendor''],
              files = [''/work/key.pem'', ''/dev/null'']\<rparr>,
      draws = 0\<rparr>"

definition demoParams :: FreeBSDSandboxParams where
  "demoParams =
     \<lparr>command = ''echo hi'', hasNetworkRestrictions = False, hasFilesystemRestrictions = False,
      httpSocketPath = None, socksSocketPath = None, httpProxyPort = None,
      socksProxyPort = None, readConfig = None, writeConfig = None\<rparr>"

definition demoJail :: string where
  "demoJail = ''/tmp/sbx_00c0ffee00c0ffee''"

definition demoFsOnly :: FreeBSDSandboxParams where
  "demoFsOnly = demoParams\<lparr>hasFilesystemRestrictions := True\<rparr>"

definition demoNoSockets :: FreeBSDSandboxParams where
  "demoNoSockets = demoParams\<lparr>hasNetworkRestrictions := True\<rparr>"

definition demoNetwork :: FreeBSDSandboxParams where
  "demoNetwork =
     demoParams\<lparr>hasNetworkRestrictions := True,
       httpSocketPath := Some ''/tmp/claude-http-ab.sock'',
       socksSocketPath := Some ''/tmp/claude-socks-ab.sock''\<rparr>"

text \<open>A shell in which the jail exits with status 1 and every other command succeeds.\<close>

definition jailFails :: "string \<Rightarrow> nat" where
  "jailFails c = (if prefix ''jail '' c then 1 else 0)"

text \<open>The decimal text of a number, as a template string writes it.\<close>

function decimal :: "nat \<Rightarrow> string" where
  "decimal n =
     (if n < 10 then [''0123456789'' ! n]
      else decimal (n div 10) @ [''0123456789'' ! (n mod 10)])"
  by pat_completeness auto
termination
  by (relation "measure (\<lambda>n. n)") auto

declare decimal.simps [simp del]

text \<open>
  Surroundings in which both bridges are spawned, the HTTP bridge has exited with code 1
  by the second attempt (its handle keeps its pid, and nothing has signalled it through
  the handle), and no socket file ever appears.
\<close>

definition demoBridge :: bridge_env where
  "demoBridge =
     \<lparr>spawned = (\<lambda>args. if prefix ''UNIX-LISTEN:/tmp/claude-http-'' (concat args)
                  then \<lparr>pid = Some 4242, killed = False, exitCode = None\<rparr>
                  else \<lparr>pid = Some 4243, killed = False, exitCode = None\<rparr>),
      httpAt = (\<lambda>i. \<lparr>pid = Some 4242, killed = False,
                      exitCode = (if i = 0 then None else Some 1)\<rparr>),
      socksAt = (\<lambda>i. \<lparr>pid = Some 4243, killed = False, exitCode = None\<rparr>),
      existsAt = (\<lambda>i p. Absent),
      numberText = decimal\<rparr>"

definition allInstalled :: "string \<Rightarrow> spawn_outcome" where
  "allInstalled tool = Returned (Some 0)"

definition noneInstalled :: "string \<Rightarrow> spawn_outcome" where
  "noneInstalled tool = Returned (Some 1)"

section \<open>The identity case of the orchestrator\<close>

text \<open>
  C6. When neither network nor filesystem restriction is requested,
  \<open>wrapCommandWithSandboxFreeBSD\<close> returns \<open>command p\<close> as it is; it has built nothing
  and has left the world as it was.
\<close>

theorem unrestricted_command_unchanged:
  "\<not> hasNetworkRestrictions p \<and> \<not> hasFilesystemRestrictions p \<longrightarrow>
   fst (wrapCommandWithSandboxFreeBSD h p w) = Inr (command p) \<and>
   nothingBuilt (snd (wrapCommandWithSandboxFreeBSD h p w)) \<and>
   after (snd (wrapCommandWithSandboxFreeBSD h p w)) = w"
  by (simp add: wrapCommandWithSandboxFreeBSD_def nothingBuilt_def)

theorem unrestricted_command_unchanged_witness:
  "\<not> hasNetworkRestrictions demoParams \<and> \<not> hasFilesystemRestrictions demoParams \<and>
   fst (wrapCommandWithSandboxFreeBSD demoHost demoParams demoWorld) = Inr ''echo hi''"
  using unrestricted_command_unchanged [of demoParams demoHost demoWorld]
  by (simp add: demoParams_def)

section \<open>The memoized dependency check\<close>

lemma cached_call:
  "hasFreeBSDSandboxDependenciesSync which (Some b) = (b, Some b)"
  by (simp add: hasFreeBSDSandboxDependenciesSync_def)

lemma calls_from_cache:
  "dependencyCalls calls (Some b) = replicate (length calls) b"
  by (induction calls) (simp_all add: cached_call)

text \<open>
  C9. Whatever the cache holds before the first call of a process and however the
  installed tools change from call to call, every call of
  \<open>hasFreeBSDSandboxDependenciesSync\<close> returns what the first one returned.
\<close>

theorem dependency_result_memoized:
  "dependencyCalls (first # later) cache =
     replicate (Suc (length later)) (fst (hasFreeBSDSandboxDependenciesSync first cache))"
  by (cases cache) (simp_all add: hasFreeBSDSandboxDependenciesSync_def calls_from_cache)

theorem dependency_result_memoized_witness:
  "dependencyCalls [allInstalled, noneInstalled, allInstalled] None = [True, True, True] \<and>
   dependencyCalls [noneInstalled, allInstalled] None = [False, False]"
  using dependency_result_memoized [of allInstalled "[noneInstalled, allInstalled]" None]
    dependency_result_memoized [of noneInstalled "[allInstalled]" None]
  by (simp add: hasFreeBSDSandboxDependenciesSync_def probeDependencies_def
      allInstalled_def noneInstalled_def)

section \<open>What the planner adds to its two arrays\<close>

lemmas demo_defs = generateJailFilesystemConfig_def essentialMounts_def essentialDirs_def
  readPhase_def writePhase_def demoHost_def demoWorld_def ensureDir_def jailMountDir_def
  demoJoin_def demoDirname_def orEmpty_def startsWithDev_def Let_def

lemma demo_stable: "fs_stable demoHost"
  by (auto simp: fs_stable_def demoHost_def)

lemma kept_refl: "kept h w w"
  by (simp add: kept_def)

lemma kept_trans: "kept h w w1 \<Longrightarrow> kept h w1 w2 \<Longrightarrow> kept h w w2"
  by (simp add: kept_def)

lemma kept_ensureDir: "fs_stable h \<Longrightarrow> kept h w (ensureDir h d w)"
  by (simp add: kept_def ensureDir_def fs_stable_def)

lemma kept_emptyFile:
  "fs_stable h \<Longrightarrow> kept h w (w\<lparr>draws := n, fsys := writeFileSync h (fsys w) f\<rparr>)"
  by (simp add: kept_def fs_stable_def)

lemma draws_ensureDir: "draws (ensureDir h d w) = draws w"
  by (simp add: ensureDir_def)

lemma kept_createEssentialDirs:
  "fs_stable h \<Longrightarrow> kept h w (createEssentialDirs h J ds w)"
proof (induction ds arbitrary: w)
  case Nil
  show ?case by (simp add: kept_refl)
next
  case (Cons d ds)
  from Cons.prems have "kept h w (ensureDir h (path_join h J d) w)"
    by (rule kept_ensureDir)
  moreover have "kept h (ensureDir h (path_join h J d) w)
      (createEssentialDirs h J ds (ensureDir h (path_join h J d) w))"
    using Cons.IH Cons.prems by blast
  ultimately show ?case by (auto intro: kept_trans)
qed

lemma draws_createEssentialDirs: "draws (createEssentialDirs h J ds w) = draws w"
  by (induction ds arbitrary: w) (simp_all add: draws_ensureDir)

lemma grows_refl: "grows h a [] a"
  by (simp add: grows_def kept_refl)

lemma grows_trans: "grows h a xs b \<Longrightarrow> grows h b ys c \<Longrightarrow> grows h a (xs @ ys) c"
  by (auto simp: grows_def intro: kept_trans)

lemma grows_push:
  "grows h (ms, us, w) [op] (ms @ [mount_command op], us @ [unmount_command op], ensureDir h d w)"
  by (simp add: grows_def kept_ensureDir)

lemma grows_push_file:
  "grows h (ms, us, w) [op]
     (ms @ [mount_command op], us @ [unmount_command op],
      (ensureDir h d w)\<lparr>draws := n, fsys := writeFileSync h (fsys (ensureDir h d w)) f\<rparr>)"
  by (auto simp: grows_def intro: kept_trans kept_ensureDir kept_emptyFile)

lemma grows_cons: "grows h a [op] b \<Longrightarrow> grows h b ops c \<Longrightarrow> grows h a (op # ops) c"
  using grows_trans [of h a "[op]" b ops c] by simp

lemma mountEssentials_grows: "\<exists>ops. grows h a ops (mountEssentials h tbl a)"
proof (induction tbl arbitrary: a)
  case Nil
  show ?case by (rule exI [of _ "[]"]) (simp add: grows_refl)
next
  case (Cons row tbl)
  obtain src dst mode where row: "row = (src, dst, mode)" by (cases row)
  obtain ms us w where a: "a = (ms, us, w)" by (cases a)
  show ?case
  proof (cases "existsSync h (fsys w) src")
    case False
    with Cons.IH [of a] row a show ?thesis by simp
  next
    case True
    define op where "op = Bind (if mode = ''ro'' then ''-o ro '' else '' '') src dst"
    define b where "b = (ms @ [mount_command op], us @ [unmount_command op], ensureDir h dst w)"
    have step: "mountEssentials h (row # tbl) a = mountEssentials h tbl b"
      using True by (simp add: row a b_def op_def unmount_command_def)
    have "grows h a [op] b"
      unfolding a b_def by (rule grows_push)
    moreover obtain ops where "grows h b ops (mountEssentials h tbl b)"
      using Cons.IH by blast
    ultimately have "grows h a (op # ops) (mountEssentials h (row # tbl) a)"
      unfolding step by (rule grows_cons)
    then show ?thesis ..
  qed
qed

lemma mountAllowed_grows: "\<exists>ops. grows h a ops (mountAllowed h J xs a)"
proof (induction xs arbitrary: a)
  case Nil
  show ?case by (rule exI [of _ "[]"]) (simp add: grows_refl)
next
  case (Cons x xs)
  obtain ms us w where a: "a = (ms, us, w)" by (cases a)
  define np where "np = normalizePathForSandbox h x"
  show ?case
  proof (cases "startsWithDev np \<or> \<not> existsSync h (fsys w) np")
    case True
    with Cons.IH [of a] a show ?thesis by (auto simp: np_def Let_def)
  next
    case False
    define op where "op = Bind [] np (path_join h J np)"
    define b where "b = (ms @ [mount_command op], us @ [unmount_command op],
      ensureDir h (jailMountDir h w np (path_join h J np)) w)"
    have step: "mountAllowed h J (x # xs) a = mountAllowed h J xs b"
      using False by (simp add: a b_def op_def np_def unmount_command_def Let_def)
    have "grows h a [op] b"
      unfolding a b_def by (rule grows_push)
    moreover obtain ops where "grows h b ops (mountAllowed h J xs b)"
      using Cons.IH by blast
    ultimately have "grows h a (op # ops) (mountAllowed h J (x # xs) a)"
      unfolding step by (rule grows_cons)
    then show ?thesis ..
  qed
qed

lemma denyRemount_Cons: "denyRemount h J xs op \<Longrightarrow> denyRemount h J (x # xs) op"
  by (auto simp: denyRemount_def)

lemma remountDenied_grows:
  "\<exists>ops. grows h a ops (remountDenied h J xs a) \<and> (\<forall>op \<in> set ops. denyRemount h J xs op)"
proof (induction xs arbitrary: a)
  case Nil
  show ?case by (rule exI [of _ "[]"]) (simp add: grows_refl)
next
  case (Cons x xs)
  obtain ms us w where a: "a = (ms, us, w)" by (cases a)
  define np where "np = normalizePathForSandbox h x"
  show ?case
  proof (cases "startsWithDev np \<or> \<not> existsSync h (fsys w) np")
    case True
    with Cons.IH [of a] a show ?thesis
      by (auto simp: np_def Let_def intro: denyRemount_Cons)
  next
    case False
    define op where "op = Bind ''-o ro '' np (path_join h J np)"
    define b where "b = (ms @ [mount_command op], us @ [unmount_command op],
      ensureDir h (jailMountDir h w np (path_join h J np)) w)"
    have step: "remountDenied h J (x # xs) a = remountDenied h J xs b"
      using False by (simp add: a b_def op_def np_def unmount_command_def Let_def)
    have here: "denyRemount h J (x # xs) op"
      using False by (auto simp: denyRemount_def op_def np_def)
    have first: "grows h a [op] b"
      unfolding a b_def by (rule grows_push)
    obtain ops where ops: "grows h b ops (remountDenied h J xs b)"
      "\<forall>op \<in> set ops. denyRemount h J xs op"
      using Cons.IH by blast
    from first ops(1) have "grows h a (op # ops) (remountDenied h J (x # xs) a)"
      unfolding step by (rule grows_cons)
    moreover have "\<forall>op' \<in> set (op # ops). denyRemount h J (x # xs) op'"
      using here ops(2) by (auto intro: denyRemount_Cons)
    ultimately show ?thesis by blast
  qed
qed

lemma hideDenied_grows: "\<exists>ops. grows h a ops (hideDenied h J xs a)"
proof (induction xs arbitrary: a)
  case Nil
  show ?case by (rule exI [of _ "[]"]) (simp add: grows_refl)
next
  case (Cons x xs)
  obtain ms us w where a: "a = (ms, us, w)" by (cases a)
  define np where "np = normalizePathForSandbox h x"
  define mp where "mp = path_join h J np"
  define w1 where "w1 = ensureDir h (jailMountDir h w np mp) w"
  show ?case
  proof (cases "existsSync h (fsys w) np")
    case False
    with Cons.IH [of a] a show ?thesis by (auto simp: np_def Let_def)
  next
    case True
    show ?thesis
    proof (cases "isDirectory h (fsys w1) np")
      case dir: True
      define op where "op = Tmpfs mp"
      define b where "b = (ms @ [mount_command op], us @ [unmount_command op], w1)"
      have step: "hideDenied h J (x # xs) a = hideDenied h J xs b"
        using True dir
        by (simp add: a b_def op_def np_def mp_def w1_def unmount_command_def Let_def)
      have "grows h a [op] b"
        unfolding a b_def w1_def by (rule grows_push)
      moreover obtain ops where "grows h b ops (hideDenied h J xs b)"
        using Cons.IH by blast
      ultimately have "grows h a (op # ops) (hideDenied h J (x # xs) a)"
        unfolding step by (rule grows_cons)
      then show ?thesis ..
    next
      case nodir: False
      define f where "f = path_join h (tmpdir h) (''empty-'' @ randomHex h (draws w1))"
      define op where "op = Bind ''-o ro '' f mp"
      define b where "b = (ms @ [mount_command op], us @ [unmount_command op],
        w1\<lparr>draws := Suc (draws w1), fsys := writeFileSync h (fsys w1) f\<rparr>)"
      have step: "hideDenied h J (x # xs) a = hideDenied h J xs b"
        using True nodir
        by (simp add: a b_def op_def np_def mp_def w1_def f_def unmount_command_def Let_def)
      have "grows h a [op] b"
        unfolding a b_def w1_def by (rule grows_push_file)
      moreover obtain ops where "grows h b ops (hideDenied h J xs b)"
        using Cons.IH by blast
      ultimately have "grows h a (op # ops) (hideDenied h J (x # xs) a)"
        unfolding step by (rule grows_cons)
      then show ?thesis ..
    qed
  qed
qed

lemma writePhase_grows: "\<exists>ops. grows h a ops (writePhase h J wc a)"
proof (cases wc)
  case None
  obtain ms us w where a: "a = (ms, us, w)" by (cases a)
  define op where "op = Bind [] (cwd h) (path_join h J (cwd h))"
  have "writePhase h J wc a =
      (ms @ [mount_command op], us @ [unmount_command op], ensureDir h (path_join h J (cwd h)) w)"
    by (simp add: None a writePhase_def op_def unmount_command_def Let_def)
  then have "grows h a [op] (writePhase h J wc a)"
    unfolding a by (simp add: grows_push)
  then show ?thesis ..
next
  case (Some c)
  define b where "b = mountAllowed h J (orEmpty (allowOnly c)) a"
  obtain xs where "grows h a xs b"
    unfolding b_def using mountAllowed_grows by blast
  moreover obtain ys where "grows h b ys
      (remountDenied h J (orEmpty (denyWithinAllow c) @ getMandatoryDenyWithinAllow h) b)"
    using remountDenied_grows by blast
  ultimately have "grows h a (xs @ ys) (writePhase h J wc a)"
    by (simp add: Some writePhase_def b_def grows_trans)
  then show ?thesis ..
qed

lemma readPhase_grows: "\<exists>ops. grows h a ops (readPhase h J rc a)"
  using grows_refl [of h a] hideDenied_grows [of h a J]
  by (auto simp: readPhase_def split: option.splits)

lemma planner_grows:
  "\<exists>ops. grows h ([], [], createEssentialDirs h J essentialDirs w) ops
     (generateJailFilesystemConfig h J rc wc w)"
proof -
  define a where "a = (([] :: string list), ([] :: string list), createEssentialDirs h J essentialDirs w)"
  define b where "b = mountEssentials h (essentialMounts h J) a"
  define c where "c = writePhase h J wc b"
  obtain xs where "grows h a xs b"
    unfolding b_def using mountEssentials_grows by blast
  moreover obtain ys where "grows h b ys c"
    unfolding c_def using writePhase_grows by blast
  moreover obtain zs where "grows h c zs (readPhase h J rc c)"
    using readPhase_grows by blast
  ultimately have "grows h a ((xs @ ys) @ zs) (readPhase h J rc c)"
    by (blast intro: grows_trans)
  then show ?thesis
    unfolding generateJailFilesystemConfig_def a_def b_def c_def by blast
qed

lemma draws_mountEssentials: "draws (snd (snd (mountEssentials h tbl a))) = draws (snd (snd a))"
proof (induction tbl arbitrary: a)
  case Nil
  show ?case by simp
next
  case (Cons row tbl)
  obtain src dst mode where row: "row = (src, dst, mode)" by (cases row)
  obtain ms us w where a: "a = (ms, us, w)" by (cases a)
  show ?case using Cons.IH by (simp add: row a draws_ensureDir)
qed

lemma draws_mountAllowed: "draws (snd (snd (mountAllowed h J xs a))) = draws (snd (snd a))"
proof (induction xs arbitrary: a)
  case Nil
  show ?case by simp
next
  case (Cons x xs)
  obtain ms us w where a: "a = (ms, us, w)" by (cases a)
  show ?case using Cons.IH by (simp add: a draws_ensureDir Let_def)
qed

lemma draws_remountDenied: "draws (snd (snd (remountDenied h J xs a))) = draws (snd (snd a))"
proof (induction xs arbitrary: a)
  case Nil
  show ?case by simp
next
  case (Cons x xs)
  obtain ms us w where a: "a = (ms, us, w)" by (cases a)
  show ?case using Cons.IH by (simp add: a draws_ensureDir Let_def)
qed

lemma draws_writePhase: "draws (snd (snd (writePhase h J wc a))) = draws (snd (snd a))"
proof (cases wc)
  case None
  obtain ms us w where a: "a = (ms, us, w)" by (cases a)
  show ?thesis by (simp add: None a writePhase_def draws_ensureDir Let_def)
next
  case (Some c)
  show ?thesis
    by (simp add: Some writePhase_def draws_remountDenied draws_mountAllowed)
qed

lemma planner_without_read:
  "generateJailFilesystemConfig h J None wc w = (ms, us, w0) \<Longrightarrow>
   draws w0 = draws w \<and> (fs_stable h \<longrightarrow> kept h w w0)"
proof -
  assume r: "generateJailFilesystemConfig h J None wc w = (ms, us, w0)"
  have "draws (snd (snd (generateJailFilesystemConfig h J None wc w))) = draws w"
    by (simp add: generateJailFilesystemConfig_def readPhase_def draws_writePhase
        draws_mountEssentials draws_createEssentialDirs)
  with r have d: "draws w0 = draws w" by simp
  obtain ops where "grows h ([], [], createEssentialDirs h J essentialDirs w) ops
      (generateJailFilesystemConfig h J None wc w)"
    using planner_grows by blast
  with r have "fs_stable h \<longrightarrow> kept h (createEssentialDirs h J essentialDirs w) w0"
    by (simp add: grows_def)
  then have "fs_stable h \<longrightarrow> kept h w w0"
    using kept_createEssentialDirs [of h w J essentialDirs] by (auto intro: kept_trans)
  with d show ?thesis by simp
qed

lemma planner_paired:
  "\<exists>ops w'. generateJailFilesystemConfig h J rc wc w =
     (map mount_command ops, map unmount_command ops, w')"
proof -
  obtain ops where g: "grows h ([], [], createEssentialDirs h J essentialDirs w) ops
      (generateJailFilesystemConfig h J rc wc w)"
    using planner_grows by blast
  obtain ms us w' where r: "generateJailFilesystemConfig h J rc wc w = (ms, us, w')"
    by (cases "generateJailFilesystemConfig h J rc wc w")
  from g r have "ms = map mount_command ops" "us = map unmount_command ops"
    by (simp_all add: grows_def)
  with r show ?thesis by blast
qed

lemma configureNetwork_Inr:
  assumes "configureNetwork h J p b = Inr b1"
  shows "\<exists>bridge. bridgeOps h J p bridge \<and>
      builtMounts b1 = builtMounts b @ map mount_command bridge \<and>
      builtUnmounts b1 = map unmount_command (rev bridge) @ builtUnmounts b"
proof (cases "hasNetworkRestrictions p")
  case False
  with assms show ?thesis
    by (auto simp: configureNetwork_def bridgeOps_def)
next
  case True
  with assms obtain http socks where t: "truthy (httpSocketPath p) = Some http"
      "truthy (socksSocketPath p) = Some socks"
    by (auto simp: configureNetwork_def split: option.splits)
  then have s: "httpSocketPath p = Some http" "socksSocketPath p = Some socks"
    by (auto simp: truthy_def split: option.splits if_splits)
  define bridge where
    "bridge = [Bind [] http (path_join h J http), Bind [] socks (path_join h J socks)]"
  have "bridgeOps h J p bridge"
    using True s by (simp add: bridgeOps_def bridge_def)
  moreover have "builtMounts b1 = builtMounts b @ map mount_command bridge"
    "builtUnmounts b1 = map unmount_command (rev bridge) @ builtUnmounts b"
    using assms True t
    by (auto simp: configureNetwork_def bridge_def unmount_command_def Let_def)
  ultimately show ?thesis by blast
qed

lemma wrap_success_shape:
  assumes restricted: "hasNetworkRestrictions p \<or> hasFilesystemRestrictions p"
    and ok: "fst (wrapCommandWithSandboxFreeBSD h p w) = Inr script"
  shows "\<exists>ops bridge w'.
      generateJailFilesystemConfig h (jailPathOf h w) (readConfig p) (writeConfig p)
        (worldAtPlanning h w) = (map mount_command ops, map unmount_command ops, w') \<and>
      bridgeOps h (jailPathOf h w) p bridge \<and>
      builtMounts (snd (wrapCommandWithSandboxFreeBSD h p w)) =
        map mount_command ops @ map mount_command bridge \<and>
      builtUnmounts (snd (wrapCommandWithSandboxFreeBSD h p w)) =
        map unmount_command (rev bridge) @ map unmount_command ops"
proof -
  obtain ops w' where plan:
    "generateJailFilesystemConfig h (jailPathOf h w) (readConfig p) (writeConfig p)
        (worldAtPlanning h w) = (map mount_command ops, map unmount_command ops, w')"
    using planner_paired by blast
  define b where "b = \<lparr>builtMounts = map mount_command ops,
      builtUnmounts = map unmount_command ops,
      builtJailArgs = [''-c'', ''name='' @ jailNameOf h w, ''path='' @ jailPathOf h w,
         ''host.hostname='' @ jailNameOf h w],
      after = w'\<rparr>"
  from restricted ok plan obtain b1 where net: "configureNetwork h (jailPathOf h w) p b = Inr b1"
    by (auto simp: wrapCommandWithSandboxFreeBSD_def b_def Let_def split: sum.splits)
  from restricted plan net have built:
    "builtMounts (snd (wrapCommandWithSandboxFreeBSD h p w)) = builtMounts b1"
    "builtUnmounts (snd (wrapCommandWithSandboxFreeBSD h p w)) = builtUnmounts b1"
    by (auto simp: wrapCommandWithSandboxFreeBSD_def b_def Let_def)
  from configureNetwork_Inr [OF net] obtain bridge where
    "bridgeOps h (jailPathOf h w) p bridge"
    "builtMounts b1 = builtMounts b @ map mount_command bridge"
    "builtUnmounts b1 = map unmount_command (rev bridge) @ builtUnmounts b"
    by blast
  with plan built show ?thesis
    by (auto simp: b_def)
qed

lemma wrap_built_shape:
  "\<exists>ops bridge.
      builtMounts (snd (wrapCommandWithSandboxFreeBSD h p w)) = map mount_command (ops @ bridge) \<and>
      builtUnmounts (snd (wrapCommandWithSandboxFreeBSD h p w)) =
        map unmount_command (rev bridge @ ops)"
proof (cases "hasNetworkRestrictions p \<or> hasFilesystemRestrictions p")
  case False
  then have "builtMounts (snd (wrapCommandWithSandboxFreeBSD h p w)) = map mount_command ([] @ [])"
    "builtUnmounts (snd (wrapCommandWithSandboxFreeBSD h p w)) = map unmount_command (rev [] @ [])"
    by (simp_all add: wrapCommandWithSandboxFreeBSD_def)
  then show ?thesis by blast
next
  case True
  obtain ops w' where plan:
    "generateJailFilesystemConfig h (jailPathOf h w) (readConfig p) (writeConfig p)
        (worldAtPlanning h w) = (map mount_command ops, map unmount_command ops, w')"
    using planner_paired by blast
  define b where "b = \<lparr>builtMounts = map mount_command ops,
      builtUnmounts = map unmount_command ops,
      builtJailArgs = [''-c'', ''name='' @ jailNameOf h w, ''path='' @ jailPathOf h w,
         ''host.hostname='' @ jailNameOf h w],
      after = w'\<rparr>"
  show ?thesis
  proof (cases "configureNetwork h (jailPathOf h w) p b")
    case (Inl e)
    with True plan have
      "builtMounts (snd (wrapCommandWithSandboxFreeBSD h p w)) = map mount_command (ops @ [])"
      "builtUnmounts (snd (wrapCommandWithSandboxFreeBSD h p w)) = map unmount_command (rev [] @ ops)"
      by (auto simp: wrapCommandWithSandboxFreeBSD_def b_def Let_def)
    then show ?thesis by blast
  next
    case (Inr b1)
    with True plan have built:
      "builtMounts (snd (wrapCommandWithSandboxFreeBSD h p w)) = builtMounts b1"
      "builtUnmounts (snd (wrapCommandWithSandboxFreeBSD h p w)) = builtUnmounts b1"
      by (auto simp: wrapCommandWithSandboxFreeBSD_def b_def Let_def)
    from configureNetwork_Inr [OF Inr] obtain bridge where
      "builtMounts b1 = builtMounts b @ map mount_command bridge"
      "builtUnmounts b1 = map unmount_command (rev bridge) @ builtUnmounts b"
      by blast
    with built have
      "builtMounts (snd (wrapCommandWithSandboxFreeBSD h p w)) = map mount_command (ops @ bridge)"
      "builtUnmounts (snd (wrapCommandWithSandboxFreeBSD h p w)) = map unmount_command (rev bridge @ ops)"
      by (simp_all add: b_def)
    then show ?thesis by blast
  qed
qed

lemma planner_essentials:
  "\<exists>ms us w1. mountEssentials h (essentialMounts h J)
       ([], [], createEssentialDirs h J essentialDirs w) = (ms, us, w1) \<and>
     (fs_stable h \<longrightarrow> kept h w w1)"
proof -
  obtain ops where g: "grows h ([], [], createEssentialDirs h J essentialDirs w) ops
      (mountEssentials h (essentialMounts h J) ([], [], createEssentialDirs h J essentialDirs w))"
    using mountEssentials_grows by blast
  obtain ms us w1 where r: "mountEssentials h (essentialMounts h J)
       ([], [], createEssentialDirs h J essentialDirs w) = (ms, us, w1)"
    by (cases "mountEssentials h (essentialMounts h J)
       ([], [], createEssentialDirs h J essentialDirs w)")
  from g r have "fs_stable h \<longrightarrow> kept h (createEssentialDirs h J essentialDirs w) w1"
    by (simp add: grows_def)
  then have "fs_stable h \<longrightarrow> kept h w w1"
    using kept_createEssentialDirs [of h w J essentialDirs] by (auto intro: kept_trans)
  with r show ?thesis by blast
qed

section \<open>Order of the allow mount and the deny remount\<close>

text \<open>
  C4. On a host whose file system only grows, for a write policy with \<open>allowOnly = [P]\<close>
  and \<open>denyWithinAllow = [Q]\<close>, where \<open>P\<close> and \<open>Q\<close> exist and their normalised forms
  do not start with \<^verbatim>\<open>/dev/\<close>: the mount list of the planner holds the read-write bind
  of \<open>P\<close> and, right after it, the read-only bind of \<open>Q\<close>, each at its own path under
  the jail root. Nothing is asked of \<open>Q\<close> being a subpath of \<open>P\<close>: the planner does not
  look at it.
\<close>

theorem deny_remount_follows_allow_mount:
  assumes stable: "fs_stable h"
    and exP: "existsSync h (fsys w) (normalizePathForSandbox h P)"
    and exQ: "existsSync h (fsys w) (normalizePathForSandbox h Q)"
    and devP: "\<not> startsWithDev (normalizePathForSandbox h P)"
    and devQ: "\<not> startsWithDev (normalizePathForSandbox h Q)"
  shows "\<exists>before rest.
     fst (generateJailFilesystemConfig h J rc
            (Some \<lparr>allowOnly = Some [P], denyWithinAllow = Some [Q]\<rparr>) w) =
       before @
       [''mount_nullfs '' @ normalizePathForSandbox h P @ '' '' @
          path_join h J (normalizePathForSandbox h P),
        ''mount_nullfs -o ro '' @ normalizePathForSandbox h Q @ '' '' @
          path_join h J (normalizePathForSandbox h Q)] @
       rest"
proof -
  define p where "p = normalizePathForSandbox h P"
  define q where "q = normalizePathForSandbox h Q"
  define rw where "rw = ''mount_nullfs '' @ p @ '' '' @ path_join h J p"
  define ro where "ro = ''mount_nullfs -o ro '' @ q @ '' '' @ path_join h J q"
  obtain ms us w1 where ess: "mountEssentials h (essentialMounts h J)
       ([], [], createEssentialDirs h J essentialDirs w) = (ms, us, w1)"
    and k1: "kept h w w1"
    using planner_essentials [of h J w] stable by blast
  define w2 where "w2 = ensureDir h (jailMountDir h w1 p (path_join h J p)) w1"
  define w3 where "w3 = ensureDir h (jailMountDir h w2 q (path_join h J q)) w2"
  have k2: "kept h w1 w2"
    unfolding w2_def using stable by (rule kept_ensureDir)
  from k1 exP have exP1: "existsSync h (fsys w1) p"
    by (simp add: kept_def p_def)
  from k1 k2 exQ have exQ2: "existsSync h (fsys w2) q"
    by (simp add: kept_def q_def)
  have allow: "mountAllowed h J [P] (ms, us, w1) =
      (ms @ [rw], us @ [''umount '' @ path_join h J p], w2)"
    using exP1 devP by (simp add: Let_def p_def [symmetric] rw_def w2_def)
  define b where "b = (ms @ [rw] @ [ro], (us @ [''umount '' @ path_join h J p]) @
      [''umount '' @ path_join h J q], w3)"
  have deny: "remountDenied h J ([Q] @ getMandatoryDenyWithinAllow h)
        (ms @ [rw], us @ [''umount '' @ path_join h J p], w2) =
      remountDenied h J (getMandatoryDenyWithinAllow h) b"
    using exQ2 devQ by (simp add: Let_def q_def [symmetric] ro_def w3_def b_def)
  obtain xs where "grows h b xs (remountDenied h J (getMandatoryDenyWithinAllow h) b)"
    using remountDenied_grows by blast
  then have wp: "fst (remountDenied h J (getMandatoryDenyWithinAllow h) b) =
      (ms @ [rw] @ [ro]) @ map mount_command xs"
    by (simp add: grows_def b_def)
  define c where "c = remountDenied h J (getMandatoryDenyWithinAllow h) b"
  obtain ys where "grows h c ys (readPhase h J rc c)"
    using readPhase_grows by blast
  then have "fst (readPhase h J rc c) = ms @ [rw, ro] @ (map mount_command xs @ map mount_command ys)"
    using wp by (simp add: grows_def c_def)
  moreover have "generateJailFilesystemConfig h J rc
            (Some \<lparr>allowOnly = Some [P], denyWithinAllow = Some [Q]\<rparr>) w =
      readPhase h J rc
        (remountDenied h J ([Q] @ getMandatoryDenyWithinAllow h)
           (mountAllowed h J [P]
              (mountEssentials h (essentialMounts h J)
                 ([], [], createEssentialDirs h J essentialDirs w))))"
    by (simp add: generateJailFilesystemConfig_def writePhase_def orEmpty_def
        del: mountAllowed.simps remountDenied.simps)
  then have "generateJailFilesystemConfig h J rc
            (Some \<lparr>allowOnly = Some [P], denyWithinAllow = Some [Q]\<rparr>) w = readPhase h J rc c"
    by (simp only: ess allow deny c_def)
  ultimately show ?thesis
    unfolding rw_def ro_def p_def q_def by metis
qed

theorem deny_remount_follows_allow_mount_witness:
  "fs_stable demoHost \<and>
   existsSync demoHost (fsys demoWorld) (normalizePathForSandbox demoHost ''/work'') \<and>
   existsSync demoHost (fsys demoWorld) (normalizePathForSandbox demoHost ''/work/vendor'') \<and>
   \<not> startsWithDev (normalizePathForSandbox demoHost ''/work'') \<and>
   \<not> startsWithDev (normalizePathForSandbox demoHost ''/work/vendor'') \<and>
   fst (generateJailFilesystemConfig demoHost demoJail None
          (Some \<lparr>allowOnly = Some [''/work''], denyWithinAllow = Some [''/work/vendor'']\<rparr>)
          demoWorld) =
     [''mount_nullfs  /dev /tmp/sbx_00c0ffee00c0ffee/dev'',
      ''mount_nullfs -o ro /etc /tmp/sbx_00c0ffee00c0ffee/etc''] @
     [''mount_nullfs /work /tmp/sbx_00c0ffee00c0ffee/work'',
      ''mount_nullfs -o ro /work/vendor /tmp/sbx_00c0ffee00c0ffee/work/vendor''] @ []"
proof -
  have exP: "existsSync demoHost (fsys demoWorld) (normalizePathForSandbox demoHost ''/work'')"
    and exQ: "existsSync demoHost (fsys demoWorld) (normalizePathForSandbox demoHost ''/work/vendor'')"
    and devP: "\<not> startsWithDev (normalizePathForSandbox demoHost ''/work'')"
    and devQ: "\<not> startsWithDev (normalizePathForSandbox demoHost ''/work/vendor'')"
    by (simp_all add: demoHost_def demoWorld_def startsWithDev_def)
  note inst = deny_remount_follows_allow_mount [OF demo_stable exP exQ devP devQ, of demoJail None]
  have "fst (generateJailFilesystemConfig demoHost demoJail None
          (Some \<lparr>allowOnly = Some [''/work''], denyWithinAllow = Some [''/work/vendor'']\<rparr>)
          demoWorld) =
     [''mount_nullfs  /dev /tmp/sbx_00c0ffee00c0ffee/dev'',
      ''mount_nullfs -o ro /etc /tmp/sbx_00c0ffee00c0ffee/etc'',
      ''mount_nullfs /work /tmp/sbx_00c0ffee00c0ffee/work'',
      ''mount_nullfs -o ro /work/vendor /tmp/sbx_00c0ffee00c0ffee/work/vendor'']"
    by (simp add: demo_defs demoJail_def)
  with inst demo_stable exP exQ devP devQ show ?thesis by simp
qed

section \<open>Hiding a path that must not be read\<close>

text \<open>
  C5. On a host whose file system only grows, for a read policy with \<open>denyOnly = [D]\<close>
  where \<open>D\<close> exists: the planner returns what it returns without a read policy, plus
  one mount and its unmount at the end. For a directory the mount is an empty
  \<^verbatim>\<open>tmpfs\<close> on the path under the jail root, and no \<^verbatim>\<open>mount_nullfs\<close> is added. For a
  file it is a read-only \<^verbatim>\<open>mount_nullfs\<close> of a file under \<open>tmpdir\<close> whose name comes from
  a fresh random draw and which has just been written with empty contents.
\<close>

theorem denied_read_path_hidden:
  assumes stable: "fs_stable h"
    and ex: "existsSync h (fsys w) (normalizePathForSandbox h D)"
  shows "generateJailFilesystemConfig h J (Some \<lparr>denyOnly = Some [D]\<rparr>) wc w =
     (case generateJailFilesystemConfig h J None wc w of
        (mounts, unmounts, w0) \<Rightarrow>
          let hidden = normalizePathForSandbox h D;
              jailMountPoint = path_join h J hidden;
              w1 = ensureDir h (jailMountDir h w0 hidden jailMountPoint) w0
          in
          if isDirectory h (fsys w) hidden then
            (mounts @ [''mount -t tmpfs tmpfs '' @ jailMountPoint],
             unmounts @ [''umount '' @ jailMountPoint], w1)
          else
            let emptyFile = path_join h (tmpdir h) (''empty-'' @ randomHex h (draws w)) in
            (mounts @ [''mount_nullfs -o ro '' @ emptyFile @ '' '' @ jailMountPoint],
             unmounts @ [''umount '' @ jailMountPoint],
             w1\<lparr>draws := Suc (draws w), fsys := writeFileSync h (fsys w1) emptyFile\<rparr>))"
proof -
  obtain ms us w0 where r: "generateJailFilesystemConfig h J None wc w = (ms, us, w0)"
    by (cases "generateJailFilesystemConfig h J None wc w")
  define np where "np = normalizePathForSandbox h D"
  define w1 where "w1 = ensureDir h (jailMountDir h w0 np (path_join h J np)) w0"
  from planner_without_read [OF r] stable have d: "draws w0 = draws w" and k: "kept h w w0"
    by simp_all
  from stable have k1: "kept h w0 w1"
    unfolding w1_def by (rule kept_ensureDir)
  from k ex have ex0: "existsSync h (fsys w0) np"
    and dir0: "isDirectory h (fsys w0) np = isDirectory h (fsys w) np"
    by (simp_all add: kept_def np_def)
  from k1 ex0 dir0 have dir1: "isDirectory h (fsys w1) np = isDirectory h (fsys w) np"
    by (simp add: kept_def)
  have d1: "draws w1 = draws w"
    by (simp add: w1_def draws_ensureDir d)
  have split: "generateJailFilesystemConfig h J (Some \<lparr>denyOnly = Some [D]\<rparr>) wc w =
      hideDenied h J [D] (ms, us, w0)"
    using r by (simp add: generateJailFilesystemConfig_def readPhase_def)
  show ?thesis
    unfolding split r
    using ex0 dir1 d1
    by (simp add: Let_def np_def [symmetric] w1_def [symmetric])
qed

theorem denied_read_path_hidden_witness:
  "fs_stable demoHost \<and>
   existsSync demoHost (fsys demoWorld) (normalizePathForSandbox demoHost ''/etc'') \<and>
   isDirectory demoHost (fsys demoWorld) (normalizePathForSandbox demoHost ''/etc'') \<and>
   fst (generateJailFilesystemConfig demoHost demoJail (Some \<lparr>denyOnly = Some [''/etc'']\<rparr>) None
          demoWorld) =
     fst (generateJailFilesystemConfig demoHost demoJail None None demoWorld) @
     [''mount -t tmpfs tmpfs /tmp/sbx_00c0ffee00c0ffee/etc''] \<and>
   existsSync demoHost (fsys demoWorld) (normalizePathForSandbox demoHost ''/work/key.pem'') \<and>
   \<not> isDirectory demoHost (fsys demoWorld) (normalizePathForSandbox demoHost ''/work/key.pem'') \<and>
   fst (generateJailFilesystemConfig demoHost demoJail (Some \<lparr>denyOnly = Some [''/work/key.pem'']\<rparr>)
          None demoWorld) =
     fst (generateJailFilesystemConfig demoHost demoJail None None demoWorld) @
     [''mount_nullfs -o ro /tmp/empty-00c0ffee00c0ffee /tmp/sbx_00c0ffee00c0ffee/work/key.pem'']"
proof -
  have exD: "existsSync demoHost (fsys demoWorld) (normalizePathForSandbox demoHost ''/etc'')"
    and exF: "existsSync demoHost (fsys demoWorld) (normalizePathForSandbox demoHost ''/work/key.pem'')"
    by (simp_all add: demoHost_def demoWorld_def)
  note dir = denied_read_path_hidden [OF demo_stable exD, of demoJail None]
  note fil = denied_read_path_hidden [OF demo_stable exF, of demoJail None]
  have facts: "isDirectory demoHost (fsys demoWorld) (normalizePathForSandbox demoHost ''/etc'')"
    "\<not> isDirectory demoHost (fsys demoWorld) (normalizePathForSandbox demoHost ''/work/key.pem'')"
    "normalizePathForSandbox demoHost ''/etc'' = ''/etc''"
    "normalizePathForSandbox demoHost ''/work/key.pem'' = ''/work/key.pem''"
    "path_join demoHost demoJail ''/etc'' = ''/tmp/sbx_00c0ffee00c0ffee/etc''"
    "path_join demoHost demoJail ''/work/key.pem'' = ''/tmp/sbx_00c0ffee00c0ffee/work/key.pem''"
    "path_join demoHost (tmpdir demoHost) (''empty-'' @ randomHex demoHost (draws demoWorld)) =
       ''/tmp/empty-00c0ffee00c0ffee''"
    by (simp_all add: demoHost_def demoWorld_def demoJoin_def demoJail_def)
  from dir facts have "fst (generateJailFilesystemConfig demoHost demoJail (Some \<lparr>denyOnly = Some [''/etc'']\<rparr>) None
          demoWorld) =
     fst (generateJailFilesystemConfig demoHost demoJail None None demoWorld) @
     [''mount -t tmpfs tmpfs /tmp/sbx_00c0ffee00c0ffee/etc'']"
    by (simp add: Let_def split: prod.splits)
  moreover from fil facts have "fst (generateJailFilesystemConfig demoHost demoJail (Some \<lparr>denyOnly = Some [''/work/key.pem'']\<rparr>)
          None demoWorld) =
     fst (generateJailFilesystemConfig demoHost demoJail None None demoWorld) @
     [''mount_nullfs -o ro /tmp/empty-00c0ffee00c0ffee /tmp/sbx_00c0ffee00c0ffee/work/key.pem'']"
    by (simp add: Let_def split: prod.splits)
  ultimately show ?thesis using demo_stable exD exF facts(1,2) by simp
qed

section \<open>Device paths in the deny-within-allow phase\<close>

text \<open>
  C8 (as amended). Every mount command the deny-within-allow phase adds (the commands
  of the write-policy branch that come after those of the allow loop) is a read-only
  remount of a path of \<open>denyWithinAllow\<close> or of the mandatory deny list whose normalised
  form does not start with \<^verbatim>\<open>/dev/\<close>. The directory \<^verbatim>\<open>/dev\<close> itself does not start
  with \<^verbatim>\<open>/dev/\<close> and is not covered.
\<close>

theorem dev_subpaths_not_remounted:
  "\<exists>ops. fst (writePhase h J (Some wc) a) =
       fst (mountAllowed h J (orEmpty (allowOnly wc)) a) @ map mount_command ops \<and>
     (\<forall>op \<in> set ops.
        denyRemount h J (orEmpty (denyWithinAllow wc) @ getMandatoryDenyWithinAllow h) op)"
proof -
  define b where "b = mountAllowed h J (orEmpty (allowOnly wc)) a"
  obtain ops where
    "grows h b ops
       (remountDenied h J (orEmpty (denyWithinAllow wc) @ getMandatoryDenyWithinAllow h) b)"
    "\<forall>op \<in> set ops.
        denyRemount h J (orEmpty (denyWithinAllow wc) @ getMandatoryDenyWithinAllow h) op"
    using remountDenied_grows by blast
  then show ?thesis
    by (auto simp: writePhase_def grows_def b_def)
qed

theorem dev_subpaths_not_remounted_witness:
  "startsWithDev (normalizePathForSandbox demoHost ''/dev/null'') \<and>
   existsSync demoHost (fsys demoWorld) (normalizePathForSandbox demoHost ''/dev/null'') \<and>
   fst (writePhase demoHost demoJail
          (Some \<lparr>allowOnly = Some [''/work''],
                 denyWithinAllow = Some [''/dev/null'', ''/work/vendor'']\<rparr>)
          ([], [], demoWorld)) =
     fst (mountAllowed demoHost demoJail [''/work''] ([], [], demoWorld)) @
     [''mount_nullfs -o ro /work/vendor /tmp/sbx_00c0ffee00c0ffee/work/vendor'']"
  using dev_subpaths_not_remounted [of demoHost demoJail
      "\<lparr>allowOnly = Some [''/work''], denyWithinAllow = Some [''/dev/null'', ''/work/vendor'']\<rparr>"
      "([], [], demoWorld)"]
  by (simp add: demo_defs demoJail_def)

text \<open>
  The directory \<^verbatim>\<open>/dev\<close> itself, named in \<open>denyWithinAllow\<close>, is remounted read-only
  over the read-write mount of \<^verbatim>\<open>/dev\<close>.
\<close>

theorem dev_itself_is_remounted:
  "devRooted (normalizePathForSandbox demoHost ''/dev'') \<and>
   ''/dev'' \<in> set (orEmpty (denyWithinAllow
       \<lparr>allowOnly = Some [''/work''], denyWithinAllow = Some [''/dev'']\<rparr>)) \<and>
   ''mount_nullfs -o ro /dev /tmp/sbx_00c0ffee00c0ffee/dev'' \<in>
     set (fst (generateJailFilesystemConfig demoHost demoJail None
                 (Some \<lparr>allowOnly = Some [''/work''], denyWithinAllow = Some [''/dev'']\<rparr>)
                 demoWorld))"
  by (simp add: demo_defs demoJail_def devRooted_def)

section \<open>Order of the unmounts\<close>

text \<open>
  The planner writes each unmount behind the unmounts it has written before, so the
  unmount list names the mount points in the order of the mounts. The orchestrator puts
  the unmounts of the two bridge sockets in front, the SOCKS socket first.
\<close>

lemma unmounts_in_mount_order:
  "(\<exists>ops w'. generateJailFilesystemConfig h J rc wc w0 =
       (map mount_command ops, map unmount_command ops, w')) \<and>
   ((hasNetworkRestrictions p \<or> hasFilesystemRestrictions p) \<and>
    fst (wrapCommandWithSandboxFreeBSD h p w) = Inr script \<longrightarrow>
    (\<exists>ops bridge w'.
      generateJailFilesystemConfig h (jailPathOf h w) (readConfig p) (writeConfig p)
        (worldAtPlanning h w) = (map mount_command ops, map unmount_command ops, w') \<and>
      bridgeOps h (jailPathOf h w) p bridge \<and>
      builtMounts (snd (wrapCommandWithSandboxFreeBSD h p w)) =
        map mount_command ops @ map mount_command bridge \<and>
      builtUnmounts (snd (wrapCommandWithSandboxFreeBSD h p w)) =
        map unmount_command (rev bridge) @ map unmount_command ops))"
  using planner_paired [of h J rc wc w0] wrap_success_shape [of p h w script]
  by blast

lemma unmounts_in_mount_order_example:
  "(hasNetworkRestrictions demoNetwork \<or> hasFilesystemRestrictions demoNetwork) \<and>
   (\<exists>script. fst (wrapCommandWithSandboxFreeBSD demoHost demoNetwork demoWorld) = Inr script) \<and>
   builtMounts (snd (wrapCommandWithSandboxFreeBSD demoHost demoNetwork demoWorld)) =
     [''mount_nullfs  /dev /tmp/sbx_00c0ffee00c0ffee/dev'',
      ''mount_nullfs -o ro /etc /tmp/sbx_00c0ffee00c0ffee/etc'',
      ''mount_nullfs /work /tmp/sbx_00c0ffee00c0ffee/work'',
      ''mount_nullfs /tmp/claude-http-ab.sock /tmp/sbx_00c0ffee00c0ffee/tmp/claude-http-ab.sock'',
      ''mount_nullfs /tmp/claude-socks-ab.sock /tmp/sbx_00c0ffee00c0ffee/tmp/claude-socks-ab.sock''] \<and>
   builtUnmounts (snd (wrapCommandWithSandboxFreeBSD demoHost demoNetwork demoWorld)) =
     [''umount /tmp/sbx_00c0ffee00c0ffee/tmp/claude-socks-ab.sock'',
      ''umount /tmp/sbx_00c0ffee00c0ffee/tmp/claude-http-ab.sock'',
      ''umount /tmp/sbx_00c0ffee00c0ffee/dev'',
      ''umount /tmp/sbx_00c0ffee00c0ffee/etc'',
      ''umount /tmp/sbx_00c0ffee00c0ffee/work'']"
proof -
  have r: "hasNetworkRestrictions demoNetwork \<or> hasFilesystemRestrictions demoNetwork"
    by (simp add: demoNetwork_def)
  have "\<not> isl (fst (wrapCommandWithSandboxFreeBSD demoHost demoNetwork demoWorld))"
    by code_simp
  then obtain script where
    ok: "fst (wrapCommandWithSandboxFreeBSD demoHost demoNetwork demoWorld) = Inr script"
    by (cases "fst (wrapCommandWithSandboxFreeBSD demoHost demoNetwork demoWorld)") auto
  have ms: "builtMounts (snd (wrapCommandWithSandboxFreeBSD demoHost demoNetwork demoWorld)) =
     [''mount_nullfs  /dev /tmp/sbx_00c0ffee00c0ffee/dev'',
      ''mount_nullfs -o ro /etc /tmp/sbx_00c0ffee00c0ffee/etc'',
      ''mount_nullfs /work /tmp/sbx_00c0ffee00c0ffee/work'',
      ''mount_nullfs /tmp/claude-http-ab.sock /tmp/sbx_00c0ffee00c0ffee/tmp/claude-http-ab.sock'',
      ''mount_nullfs /tmp/claude-socks-ab.sock /tmp/sbx_00c0ffee00c0ffee/tmp/claude-socks-ab.sock'']"
    by code_simp
  have us: "builtUnmounts (snd (wrapCommandWithSandboxFreeBSD demoHost demoNetwork demoWorld)) =
     [''umount /tmp/sbx_00c0ffee00c0ffee/tmp/claude-socks-ab.sock'',
      ''umount /tmp/sbx_00c0ffee00c0ffee/tmp/claude-http-ab.sock'',
      ''umount /tmp/sbx_00c0ffee00c0ffee/dev'',
      ''umount /tmp/sbx_00c0ffee00c0ffee/etc'',
      ''umount /tmp/sbx_00c0ffee00c0ffee/work'']"
    by code_simp
  from unmounts_in_mount_order [of demoHost demoJail None None demoWorld demoNetwork demoWorld script]
    r ok
  obtain ops bridge where
    "builtUnmounts (snd (wrapCommandWithSandboxFreeBSD demoHost demoNetwork demoWorld)) =
        map unmount_command (rev bridge) @ map unmount_command ops"
    by blast
  with r ok ms us show ?thesis by blast
qed

text \<open>
  C2. The unmount list of the planner is not the mount list reversed: for a write policy
  that allows \<^verbatim>\<open>/work\<close> and denies \<^verbatim>\<open>/work/vendor\<close> within it, the unmount of
  \<^verbatim>\<open>/work\<close> under the jail root comes before the unmount of \<^verbatim>\<open>/work/vendor\<close> that
  was mounted on top of it.
\<close>

theorem parent_unmounted_before_child:
  "fst (generateJailFilesystemConfig demoHost demoJail None
          (Some \<lparr>allowOnly = Some [''/work''], denyWithinAllow = Some [''/work/vendor'']\<rparr>)
          demoWorld) =
     [''mount_nullfs  /dev /tmp/sbx_00c0ffee00c0ffee/dev'',
      ''mount_nullfs -o ro /etc /tmp/sbx_00c0ffee00c0ffee/etc'',
      ''mount_nullfs /work /tmp/sbx_00c0ffee00c0ffee/work'',
      ''mount_nullfs -o ro /work/vendor /tmp/sbx_00c0ffee00c0ffee/work/vendor''] \<and>
   fst (snd (generateJailFilesystemConfig demoHost demoJail None
          (Some \<lparr>allowOnly = Some [''/work''], denyWithinAllow = Some [''/work/vendor'']\<rparr>)
          demoWorld)) =
     [''umount /tmp/sbx_00c0ffee00c0ffee/dev'',
      ''umount /tmp/sbx_00c0ffee00c0ffee/etc'',
      ''umount /tmp/sbx_00c0ffee00c0ffee/work'',
      ''umount /tmp/sbx_00c0ffee00c0ffee/work/vendor''] \<and>
   \<not> reversedTeardown
       (fst (generateJailFilesystemConfig demoHost demoJail None
          (Some \<lparr>allowOnly = Some [''/work''], denyWithinAllow = Some [''/work/vendor'']\<rparr>)
          demoWorld))
       (fst (snd (generateJailFilesystemConfig demoHost demoJail None
          (Some \<lparr>allowOnly = Some [''/work''], denyWithinAllow = Some [''/work/vendor'']\<rparr>)
          demoWorld)))"
  by code_simp

section \<open>Every mount has its unmount\<close>

lemma unmount_command_inj: "unmount_command a = unmount_command b \<longleftrightarrow> mount_point a = mount_point b"
  by (simp add: unmount_command_def)

lemma only_unmount_when_distinct:
  assumes "distinct (map mount_point ops)" "op \<in> set ops"
    and "mset us = mset (map unmount_command ops)"
  shows "count (mset us) (unmount_command op) = 1"
proof -
  from assms(1) have "distinct ops" "inj_on mount_point (set ops)"
    by (simp_all add: distinct_map)
  then have "distinct (map unmount_command ops)"
    by (auto simp: distinct_map inj_on_def unmount_command_inj)
  moreover have "unmount_command op \<in> set (map unmount_command ops)"
    using assms(2) by simp
  ultimately have "count (mset (map unmount_command ops)) (unmount_command op) = 1"
    by (simp add: distinct_count_atmost_1)
  with assms(3) show ?thesis by simp
qed

text \<open>
  C10 (as amended). The mount list and the unmount list have equal length, for the
  planner and for the arrays of the orchestrator however its call ends; the unmounts
  are, counted with repetitions, one \<^verbatim>\<open>umount\<close> of the mount point of each mount. When no
  two mounts share a mount point, exactly one unmount names the mount point of each
  mount.
\<close>

theorem every_mount_has_its_unmount:
  "(\<exists>ops w'. generateJailFilesystemConfig h J rc wc w0 =
       (map mount_command ops, map unmount_command ops, w')) \<and>
   length (fst (generateJailFilesystemConfig h J rc wc w0)) =
     length (fst (snd (generateJailFilesystemConfig h J rc wc w0))) \<and>
   length (builtMounts (snd (wrapCommandWithSandboxFreeBSD h p w))) =
     length (builtUnmounts (snd (wrapCommandWithSandboxFreeBSD h p w))) \<and>
   (\<exists>ops. builtMounts (snd (wrapCommandWithSandboxFreeBSD h p w)) = map mount_command ops \<and>
      mset (builtUnmounts (snd (wrapCommandWithSandboxFreeBSD h p w))) =
        mset (map unmount_command ops) \<and>
      (distinct (map mount_point ops) \<longrightarrow>
         (\<forall>op \<in> set ops.
            count (mset (builtUnmounts (snd (wrapCommandWithSandboxFreeBSD h p w))))
              (unmount_command op) = 1)))"
proof -
  obtain ops0 w' where plan: "generateJailFilesystemConfig h J rc wc w0 =
      (map mount_command ops0, map unmount_command ops0, w')"
    using planner_paired by blast
  then have "length (fst (generateJailFilesystemConfig h J rc wc w0)) =
     length (fst (snd (generateJailFilesystemConfig h J rc wc w0)))"
    by simp
  with plan have planner: "(\<exists>ops w'. generateJailFilesystemConfig h J rc wc w0 =
       (map mount_command ops, map unmount_command ops, w')) \<and>
     length (fst (generateJailFilesystemConfig h J rc wc w0)) =
     length (fst (snd (generateJailFilesystemConfig h J rc wc w0)))"
    by blast
  obtain ops bridge where shape:
    "builtMounts (snd (wrapCommandWithSandboxFreeBSD h p w)) = map mount_command (ops @ bridge)"
    "builtUnmounts (snd (wrapCommandWithSandboxFreeBSD h p w)) = map unmount_command (rev bridge @ ops)"
    using wrap_built_shape by blast
  have m: "mset (builtUnmounts (snd (wrapCommandWithSandboxFreeBSD h p w))) =
      mset (map unmount_command (ops @ bridge))"
    by (simp add: shape(2))
  have "distinct (map mount_point (ops @ bridge)) \<longrightarrow>
         (\<forall>op \<in> set (ops @ bridge).
            count (mset (builtUnmounts (snd (wrapCommandWithSandboxFreeBSD h p w))))
              (unmount_command op) = 1)"
    using only_unmount_when_distinct [OF _ _ m] by blast
  with shape(1) m have "\<exists>ops. builtMounts (snd (wrapCommandWithSandboxFreeBSD h p w)) = map mount_command ops \<and>
      mset (builtUnmounts (snd (wrapCommandWithSandboxFreeBSD h p w))) =
        mset (map unmount_command ops) \<and>
      (distinct (map mount_point ops) \<longrightarrow>
         (\<forall>op \<in> set ops.
            count (mset (builtUnmounts (snd (wrapCommandWithSandboxFreeBSD h p w))))
              (unmount_command op) = 1))"
    by blast
  moreover have "length (builtMounts (snd (wrapCommandWithSandboxFreeBSD h p w))) =
     length (builtUnmounts (snd (wrapCommandWithSandboxFreeBSD h p w)))"
    by (simp add: shape)
  ultimately show ?thesis using planner by blast
qed

theorem every_mount_has_its_unmount_witness:
  "length (builtMounts (snd (wrapCommandWithSandboxFreeBSD demoHost demoNetwork demoWorld))) = 5 \<and>
   length (builtUnmounts (snd (wrapCommandWithSandboxFreeBSD demoHost demoNetwork demoWorld))) = 5 \<and>
   distinct (map lastWord
     (builtMounts (snd (wrapCommandWithSandboxFreeBSD demoHost demoNetwork demoWorld)))) \<and>
   list_all
     (\<lambda>m. unmountsOf
        (builtUnmounts (snd (wrapCommandWithSandboxFreeBSD demoHost demoNetwork demoWorld))) m = 1)
     (builtMounts (snd (wrapCommandWithSandboxFreeBSD demoHost demoNetwork demoWorld)))"
proof -
  have "length (builtMounts (snd (wrapCommandWithSandboxFreeBSD demoHost demoNetwork demoWorld))) = 5"
    by code_simp
  moreover have "distinct (map lastWord
     (builtMounts (snd (wrapCommandWithSandboxFreeBSD demoHost demoNetwork demoWorld))))"
    by code_simp
  moreover have "list_all
     (\<lambda>m. unmountsOf
        (builtUnmounts (snd (wrapCommandWithSandboxFreeBSD demoHost demoNetwork demoWorld))) m = 1)
     (builtMounts (snd (wrapCommandWithSandboxFreeBSD demoHost demoNetwork demoWorld)))"
    by code_simp
  ultimately show ?thesis
    using every_mount_has_its_unmount [of demoHost demoJail None None demoWorld demoNetwork demoWorld]
    by simp
qed

text \<open>
  A path that is mounted twice (\<^verbatim>\<open>/etc\<close>: bound read-only as an essential directory,
  then hidden by a \<^verbatim>\<open>tmpfs\<close>) has two unmounts of its mount point.
\<close>

theorem shared_mount_point_unmounted_twice:
  "''mount_nullfs -o ro /etc /tmp/sbx_00c0ffee00c0ffee/etc'' \<in>
     set (fst (generateJailFilesystemConfig demoHost demoJail
                 (Some \<lparr>denyOnly = Some [''/etc'']\<rparr>) None demoWorld)) \<and>
   unmountsOf
     (fst (snd (generateJailFilesystemConfig demoHost demoJail
                  (Some \<lparr>denyOnly = Some [''/etc'']\<rparr>) None demoWorld)))
     ''mount_nullfs -o ro /etc /tmp/sbx_00c0ffee00c0ffee/etc'' = 2"
  by code_simp

section \<open>Network restriction without bridge sockets\<close>

text \<open>
  C3 (as amended). With network restriction requested and a socket path absent, the
  call fails with \<open>MissingBridgeConfig\<close> and returns no script. The error is raised
  after the planner has run and after the first four jail arguments have been
  assembled: the mount and unmount commands of the planner exist, and the directories
  the planner creates under the new jail root have been created.
\<close>

theorem missing_bridge_config_fails_after_planning:
  assumes "hasNetworkRestrictions p"
    and "httpSocketPath p = None \<or> socksSocketPath p = None"
  shows "wrapCommandWithSandboxFreeBSD h p w =
     (case generateJailFilesystemConfig h (jailPathOf h w) (readConfig p) (writeConfig p)
             (worldAtPlanning h w) of
        (mounts, unmounts, w1) \<Rightarrow>
          (Inl MissingBridgeConfig,
           \<lparr>builtMounts = mounts, builtUnmounts = unmounts,
            builtJailArgs = [''-c'', ''name='' @ jailNameOf h w, ''path='' @ jailPathOf h w,
                             ''host.hostname='' @ jailNameOf h w],
            after = w1\<rparr>))"
  using assms
  by (auto simp: wrapCommandWithSandboxFreeBSD_def configureNetwork_def truthy_def Let_def
      split: prod.splits option.splits)

theorem missing_bridge_config_fails_after_planning_witness:
  "hasNetworkRestrictions demoNoSockets \<and>
   (httpSocketPath demoNoSockets = None \<or> socksSocketPath demoNoSockets = None) \<and>
   fst (wrapCommandWithSandboxFreeBSD demoHost demoNoSockets demoWorld) = Inl MissingBridgeConfig \<and>
   builtMounts (snd (wrapCommandWithSandboxFreeBSD demoHost demoNoSockets demoWorld)) =
     fst (generateJailFilesystemConfig demoHost demoJail None None
            (worldAtPlanning demoHost demoWorld))"
proof -
  have h: "hasNetworkRestrictions demoNoSockets"
    and n: "httpSocketPath demoNoSockets = None \<or> socksSocketPath demoNoSockets = None"
    by (simp_all add: demoNoSockets_def demoParams_def)
  have j: "jailPathOf demoHost demoWorld = demoJail"
    by (simp add: jailPathOf_def jailNameOf_def demoHost_def demoWorld_def demoJoin_def demoJail_def)
  have c: "readConfig demoNoSockets = None" "writeConfig demoNoSockets = None"
    by (simp_all add: demoNoSockets_def demoParams_def)
  from missing_bridge_config_fails_after_planning [OF h n, of demoHost demoWorld] h n
  show ?thesis by (simp add: j c split: prod.splits)
qed

text \<open>
  At the error, three mount commands and four jail arguments have been built, and the
  jail root holds a \<^verbatim>\<open>dev\<close> directory that was not there before.
\<close>

theorem strings_built_before_missing_bridge_error:
  "hasNetworkRestrictions demoNoSockets \<and>
   httpSocketPath demoNoSockets = None \<and> socksSocketPath demoNoSockets = None \<and>
   fst (wrapCommandWithSandboxFreeBSD demoHost demoNoSockets demoWorld) = Inl MissingBridgeConfig \<and>
   builtMounts (snd (wrapCommandWithSandboxFreeBSD demoHost demoNoSockets demoWorld)) =
     [''mount_nullfs  /dev /tmp/sbx_00c0ffee00c0ffee/dev'',
      ''mount_nullfs -o ro /etc /tmp/sbx_00c0ffee00c0ffee/etc'',
      ''mount_nullfs /work /tmp/sbx_00c0ffee00c0ffee/work''] \<and>
   builtJailArgs (snd (wrapCommandWithSandboxFreeBSD demoHost demoNoSockets demoWorld)) =
     [''-c'', ''name=sbx_00c0ffee00c0ffee'', ''path=/tmp/sbx_00c0ffee00c0ffee'',
      ''host.hostname=sbx_00c0ffee00c0ffee''] \<and>
   \<not> nothingBuilt (snd (wrapCommandWithSandboxFreeBSD demoHost demoNoSockets demoWorld)) \<and>
   isDirectory demoHost
     (fsys (after (snd (wrapCommandWithSandboxFreeBSD demoHost demoNoSockets demoWorld))))
     ''/tmp/sbx_00c0ffee00c0ffee/dev'' \<and>
   \<not> isDirectory demoHost (fsys demoWorld) ''/tmp/sbx_00c0ffee00c0ffee/dev''"
  by code_simp

section \<open>The exit status of the jail in the wrapper script\<close>

lemma render_Nil: "render [] = []"
  by (simp add: render_def)

lemma render_Cons: "render (t # ts) = render_tok t @ render ts"
  by (simp add: render_def)

lemma render_append: "render (xs @ ys) = render xs @ render ys"
  by (simp add: render_def)

lemma render_joinToks:
  "render (joinToks sep xss) = joinWith (render_tok sep) (map render xss)"
  by (induction sep xss rule: joinToks.induct) (simp_all add: render_append render_Cons render_Nil)

lemma render_runs: "map (render \<circ> (\<lambda>c. [Simple (Run c)])) cs = cs"
  by (induction cs) (simp_all add: render_Cons render_Nil)

lemma render_wrapperTokens:
  "render (wrapperTokens J mounts unmounts (shellquote h (''jail'' # jailArgs))) =
     wrapperScript h J mounts unmounts jailArgs"
  by (simp add: wrapperTokens_def wrapperScript_def render_append render_Cons render_Nil
      render_joinToks render_runs)

lemma wrapperTokens_shape:
  "wrapperTokens J mounts unmounts jailCmd =
     joinToks AndIf (map (\<lambda>m. [Simple (Run m)]) mounts) @
     [AndIf, Simple (Run jailCmd), AndIf, Simple CaptureStatus, AndIf] @
     joinToks Semi (map (\<lambda>u. [Simple (Run u)]) unmounts) @
     [AndIf, Simple (Run (''rm -rf '' @ J)), AndIf, Simple ExitCaptured]"
  by (simp add: wrapperTokens_def)

lemma set_joinToks: "set (joinToks sep xss) \<subseteq> insert sep (\<Union>xs \<in> set xss. set xs)"
  by (induction sep xss rule: joinToks.induct) auto

lemma runs_only:
  "set (joinToks sep (map (\<lambda>c. [Simple (Run c)]) cs)) \<subseteq> insert sep (Simple ` Run ` set cs)"
  using set_joinToks [of sep "map (\<lambda>c. [Simple (Run c)]) cs"] by auto

lemma step_keeps_captured:
  "t \<noteq> Simple CaptureStatus \<Longrightarrow> captured (shellStep run t s) = captured s"
proof (cases t)
  case (Simple wd)
  assume "t \<noteq> Simple CaptureStatus"
  with Simple show ?thesis by (cases wd) simp_all
qed simp_all

lemma step_keeps_running:
  "t \<noteq> Simple ExitCaptured \<Longrightarrow> finished s = None \<Longrightarrow>
   finished (shellStep run t s) = None"
proof (cases t)
  case (Simple wd)
  assume "t \<noteq> Simple ExitCaptured" "finished s = None"
  with Simple show ?thesis by (cases wd) simp_all
qed simp_all

lemma fold_keeps_captured:
  "Simple CaptureStatus \<notin> set toks \<Longrightarrow>
   captured (fold (shellStep run) toks s) = captured s"
proof (induction toks arbitrary: s)
  case Nil
  show ?case by simp
next
  case (Cons t toks)
  then have "t \<noteq> Simple CaptureStatus" "Simple CaptureStatus \<notin> set toks" by auto
  then show ?case
    using Cons.IH [of "shellStep run t s"] step_keeps_captured [of t run s]
    by (simp del: shellStep.simps)
qed

lemma fold_keeps_running:
  "Simple ExitCaptured \<notin> set toks \<Longrightarrow> finished s = None \<Longrightarrow>
   finished (fold (shellStep run) toks s) = None"
proof (induction toks arbitrary: s)
  case Nil
  then show ?case by simp
next
  case (Cons t toks)
  then have "t \<noteq> Simple ExitCaptured" "Simple ExitCaptured \<notin> set toks" by auto
  then show ?case
    using Cons.IH [of "shellStep run t s"] step_keeps_running [of t s run] Cons.prems(2)
    by (simp del: shellStep.simps)
qed

lemma after_setup:
  "finished (fold (shellStep run) (joinToks AndIf (map (\<lambda>m. [Simple (Run m)]) mounts)) shellStart) = None \<and>
   captured (fold (shellStep run) (joinToks AndIf (map (\<lambda>m. [Simple (Run m)]) mounts)) shellStart) = None"
proof -
  have "Simple CaptureStatus \<notin> set (joinToks AndIf (map (\<lambda>m. [Simple (Run m)]) mounts))"
    "Simple ExitCaptured \<notin> set (joinToks AndIf (map (\<lambda>m. [Simple (Run m)]) mounts))"
    using runs_only [of AndIf mounts] by auto
  then show ?thesis
    by (simp add: fold_keeps_captured fold_keeps_running shellStart_def)
qed

lemma run_split:
  "runScript run (wrapperTokens J mounts unmounts jailCmd) =
     fold (shellStep run)
       (joinToks Semi (map (\<lambda>u. [Simple (Run u)]) unmounts) @
        [AndIf, Simple (Run (''rm -rf '' @ J)), AndIf, Simple ExitCaptured])
       (fold (shellStep run) [AndIf, Simple (Run jailCmd), AndIf, Simple CaptureStatus, AndIf]
          (fold (shellStep run) (joinToks AndIf (map (\<lambda>m. [Simple (Run m)]) mounts)) shellStart))"
  unfolding runScript_def wrapperTokens_shape
  by (simp only: fold_append o_apply)

lemma capture_stage:
  assumes "finished s = None" "captured s = None"
  shows "captured (fold (shellStep run)
            [AndIf, Simple (Run jailCmd), AndIf, Simple CaptureStatus, AndIf] s) \<in> {None, Some 0} \<and>
         (run jailCmd \<noteq> 0 \<longrightarrow>
          captured (fold (shellStep run)
            [AndIf, Simple (Run jailCmd), AndIf, Simple CaptureStatus, AndIf] s) = None)"
proof -
  define a where "a = shellStep run AndIf s"
  define b where "b = shellStep run (Simple (Run jailCmd)) a"
  define c where "c = shellStep run AndIf b"
  define d where "d = shellStep run (Simple CaptureStatus) c"
  define e where "e = shellStep run AndIf d"
  have a: "finished a = None" "captured a = None" "skipping a = (lastStatus s \<noteq> 0)"
    "lastStatus a = lastStatus s"
    using assms by (simp_all add: a_def)
  have b: "finished b = None" "captured b = None"
    "lastStatus b = (if skipping a then lastStatus a else run jailCmd)"
    using a(1,2) by (simp_all add: b_def)
  have c: "finished c = None" "captured c = None" "skipping c = (lastStatus b \<noteq> 0)"
    "lastStatus c = lastStatus b"
    using b(1,2) by (simp_all add: c_def)
  have d: "captured d = (if skipping c then None else Some (lastStatus c))"
    using c(1,2) by (simp add: d_def)
  have e: "captured e = captured d"
    by (simp add: e_def)
  have run: "fold (shellStep run)
      [AndIf, Simple (Run jailCmd), AndIf, Simple CaptureStatus, AndIf] s = e"
    by (simp add: a_def b_def c_def d_def e_def del: shellStep.simps)
  have "captured e \<in> {None, Some 0}"
    using c(3,4) by (simp add: e d)
  moreover have "run jailCmd \<noteq> 0 \<longrightarrow> captured e = None"
    using a(3,4) b(3) c(3) by (simp add: e d)
  ultimately show ?thesis
    unfolding run by blast
qed

lemma captured_only_zero:
  "captured (runScript run (wrapperTokens J mounts unmounts jailCmd)) \<in> {None, Some 0} \<and>
   (run jailCmd \<noteq> 0 \<longrightarrow>
    captured (runScript run (wrapperTokens J mounts unmounts jailCmd)) = None)"
proof -
  define s1 where
    "s1 = fold (shellStep run) (joinToks AndIf (map (\<lambda>m. [Simple (Run m)]) mounts)) shellStart"
  define s2 where "s2 = fold (shellStep run)
      [AndIf, Simple (Run jailCmd), AndIf, Simple CaptureStatus, AndIf] s1"
  define cleanup where "cleanup = joinToks Semi (map (\<lambda>u. [Simple (Run u)]) unmounts) @
     [AndIf, Simple (Run (''rm -rf '' @ J)), AndIf, Simple ExitCaptured]"
  have s1: "finished s1 = None" "captured s1 = None"
    using after_setup [of run mounts] by (simp_all add: s1_def)
  have "Simple CaptureStatus \<notin> set cleanup"
    using runs_only [of Semi unmounts] by (auto simp: cleanup_def)
  then have keep: "captured (fold (shellStep run) cleanup s2) = captured s2"
    by (rule fold_keeps_captured)
  have run: "runScript run (wrapperTokens J mounts unmounts jailCmd) =
      fold (shellStep run) cleanup s2"
    unfolding s1_def s2_def cleanup_def by (rule run_split)
  show ?thesis
    unfolding run keep unfolding s2_def by (rule capture_stage [OF s1])
qed

lemma wrap_script:
  assumes "hasNetworkRestrictions p \<or> hasFilesystemRestrictions p"
    and "fst (wrapCommandWithSandboxFreeBSD h p w) = Inr script"
  shows "script = ''sh -c '' @ shellquote h
      [wrapperScript h (jailPathOf h w)
         (builtMounts (snd (wrapCommandWithSandboxFreeBSD h p w)))
         (builtUnmounts (snd (wrapCommandWithSandboxFreeBSD h p w)))
         (builtJailArgs (snd (wrapCommandWithSandboxFreeBSD h p w)))]"
  using assms
  by (auto simp: wrapCommandWithSandboxFreeBSD_def Let_def split: prod.splits sum.splits)

text \<open>
  C1. The script a restricted call returns is the text of \<open>wrapperOf\<close>, quoted as the
  argument of \<^verbatim>\<open>sh -c\<close>. Whatever the commands of the script exit with, the variable
  \<^verbatim>\<open>EXIT_CODE\<close> ends unset or holding 0: the assignment is joined to the jail command
  by \<^verbatim>\<open>&&\<close> and runs only after a jail that exited with 0. When the jail exits with
  another status the assignment is skipped, and so is the first unmount; the script
  does not exit with the status of the jail.
\<close>

theorem jail_status_is_lost:
  "(hasNetworkRestrictions p \<or> hasFilesystemRestrictions p) \<and>
   fst (wrapCommandWithSandboxFreeBSD h p w) = Inr script \<longrightarrow>
     script = ''sh -c '' @ shellquote h [render (wrapperOf h p w)] \<and>
     captured (runScript run (wrapperOf h p w)) \<in> {None, Some 0} \<and>
     (run (jailCmdOf h p w) \<noteq> 0 \<longrightarrow> captured (runScript run (wrapperOf h p w)) = None)"
proof (intro impI, elim conjE)
  assume r: "hasNetworkRestrictions p \<or> hasFilesystemRestrictions p"
    and ok: "fst (wrapCommandWithSandboxFreeBSD h p w) = Inr script"
  have "script = ''sh -c '' @ shellquote h [render (wrapperOf h p w)]"
    unfolding wrapperOf_def jailCmdOf_def render_wrapperTokens
    using r ok by (rule wrap_script)
  moreover have "captured (runScript run (wrapperOf h p w)) \<in> {None, Some 0} \<and>
     (run (jailCmdOf h p w) \<noteq> 0 \<longrightarrow> captured (runScript run (wrapperOf h p w)) = None)"
    unfolding wrapperOf_def by (rule captured_only_zero)
  ultimately show "script = ''sh -c '' @ shellquote h [render (wrapperOf h p w)] \<and>
     captured (runScript run (wrapperOf h p w)) \<in> {None, Some 0} \<and>
     (run (jailCmdOf h p w) \<noteq> 0 \<longrightarrow> captured (runScript run (wrapperOf h p w)) = None)"
    by blast
qed

theorem jail_status_is_lost_witness:
  "(hasNetworkRestrictions demoFsOnly \<or> hasFilesystemRestrictions demoFsOnly) \<and>
   (\<exists>script. fst (wrapCommandWithSandboxFreeBSD demoHost demoFsOnly demoWorld) = Inr script) \<and>
   jailFails (jailCmdOf demoHost demoFsOnly demoWorld) = 1 \<and>
   attempted (runScript jailFails (wrapperOf demoHost demoFsOnly demoWorld)) =
     [''mount_nullfs  /dev /tmp/sbx_00c0ffee00c0ffee/dev'',
      ''mount_nullfs -o ro /etc /tmp/sbx_00c0ffee00c0ffee/etc'',
      ''mount_nullfs /work /tmp/sbx_00c0ffee00c0ffee/work'',
      jailCmdOf demoHost demoFsOnly demoWorld,
      ''umount /tmp/sbx_00c0ffee00c0ffee/etc'',
      ''umount /tmp/sbx_00c0ffee00c0ffee/work'',
      ''rm -rf /tmp/sbx_00c0ffee00c0ffee''] \<and>
   captured (runScript jailFails (wrapperOf demoHost demoFsOnly demoWorld)) = None \<and>
   scriptStatus (runScript jailFails (wrapperOf demoHost demoFsOnly demoWorld)) = 0"
proof -
  have r: "hasNetworkRestrictions demoFsOnly \<or> hasFilesystemRestrictions demoFsOnly"
    by (simp add: demoFsOnly_def)
  have "\<not> isl (fst (wrapCommandWithSandboxFreeBSD demoHost demoFsOnly demoWorld))"
    by code_simp
  then obtain script where
    ok: "fst (wrapCommandWithSandboxFreeBSD demoHost demoFsOnly demoWorld) = Inr script"
    by (cases "fst (wrapCommandWithSandboxFreeBSD demoHost demoFsOnly demoWorld)") auto
  have f: "jailFails (jailCmdOf demoHost demoFsOnly demoWorld) = 1"
    by code_simp
  have t: "attempted (runScript jailFails (wrapperOf demoHost demoFsOnly demoWorld)) =
     [''mount_nullfs  /dev /tmp/sbx_00c0ffee00c0ffee/dev'',
      ''mount_nullfs -o ro /etc /tmp/sbx_00c0ffee00c0ffee/etc'',
      ''mount_nullfs /work /tmp/sbx_00c0ffee00c0ffee/work'',
      jailCmdOf demoHost demoFsOnly demoWorld,
      ''umount /tmp/sbx_00c0ffee00c0ffee/etc'',
      ''umount /tmp/sbx_00c0ffee00c0ffee/work'',
      ''rm -rf /tmp/sbx_00c0ffee00c0ffee'']"
    by code_simp
  have s: "scriptStatus (runScript jailFails (wrapperOf demoHost demoFsOnly demoWorld)) = 0"
    by code_simp
  from jail_status_is_lost [of demoFsOnly demoHost demoWorld script jailFails] r ok f
  have "captured (runScript jailFails (wrapperOf demoHost demoFsOnly demoWorld)) = None"
    by simp
  with r ok f t s show ?thesis by blast
qed

section \<open>A bridge that never becomes ready\<close>

lemma poll_again:
  assumes "i < maxAttempts" "passesLivenessTest e i" "\<not> fst (socketsReady e http socks i)"
  shows "waitForSockets e http socks i tr =
     (if i = maxAttempts - 1 then
        (Inl BridgeNotReady,
         tr @ attempt e http socks i @ terminate (httpAt e i) @ terminate (socksAt e i))
      else waitForSockets e http socks (Suc i) (tr @ attempt e http socks i @ [Sleep (i * 100)]))"
  using assms
  by (subst waitForSockets.simps)
    (auto simp: passesLivenessTest_def attempt_def split: prod.splits bool.splits)

lemma poll_died:
  assumes "i < maxAttempts" "\<not> passesLivenessTest e i"
  shows "waitForSockets e http socks i tr = (Inl BridgeProcessDied, tr @ [Liveness i])"
  using assms
  by (subst waitForSockets.simps) (auto simp: passesLivenessTest_def)

lemma poll_never_ready:
  assumes alive: "\<forall>i<maxAttempts. passesLivenessTest e i"
    and absent: "\<forall>i<maxAttempts. \<not> fst (socketsReady e http socks i)"
  shows "waitForSockets e http socks 0 tr =
     (Inl BridgeNotReady,
      tr @ attempt e http socks 0 @ [Sleep 0] @ attempt e http socks 1 @ [Sleep 100] @
      attempt e http socks 2 @ [Sleep 200] @ attempt e http socks 3 @ [Sleep 300] @
      attempt e http socks 4 @ terminate (httpAt e 4) @ terminate (socksAt e 4))"
proof -
  have a: "passesLivenessTest e 0" "passesLivenessTest e 1" "passesLivenessTest e 2"
    "passesLivenessTest e 3" "passesLivenessTest e 4"
    using alive by (simp_all add: maxAttempts_def)
  have n: "\<not> fst (socketsReady e http socks 0)" "\<not> fst (socketsReady e http socks 1)"
    "\<not> fst (socketsReady e http socks 2)" "\<not> fst (socketsReady e http socks 3)"
    "\<not> fst (socketsReady e http socks 4)"
    using absent by (simp_all add: maxAttempts_def)
  have "waitForSockets e http socks 0 tr =
      waitForSockets e http socks 1 (tr @ attempt e http socks 0 @ [Sleep 0])"
    using poll_again [of 0 e http socks tr] a(1) n(1) by (simp add: maxAttempts_def)
  also have "\<dots> = waitForSockets e http socks 2
      (tr @ attempt e http socks 0 @ [Sleep 0] @ attempt e http socks 1 @ [Sleep 100])"
    using poll_again [of 1 e http socks] a(2) n(2) by (simp add: maxAttempts_def numeral_2_eq_2)
  also have "\<dots> = waitForSockets e http socks 3
      (tr @ attempt e http socks 0 @ [Sleep 0] @ attempt e http socks 1 @ [Sleep 100] @
       attempt e http socks 2 @ [Sleep 200])"
    using poll_again [of 2 e http socks] a(3) n(3) by (simp add: maxAttempts_def numeral_3_eq_3 numeral_2_eq_2)
  also have "\<dots> = waitForSockets e http socks 4
      (tr @ attempt e http socks 0 @ [Sleep 0] @ attempt e http socks 1 @ [Sleep 100] @
       attempt e http socks 2 @ [Sleep 200] @ attempt e http socks 3 @ [Sleep 300])"
    using poll_again [of 3 e http socks] a(4) n(4)
    by (simp add: maxAttempts_def eval_nat_numeral)
  also have "\<dots> = (Inl BridgeNotReady,
      tr @ attempt e http socks 0 @ [Sleep 0] @ attempt e http socks 1 @ [Sleep 100] @
      attempt e http socks 2 @ [Sleep 200] @ attempt e http socks 3 @ [Sleep 300] @
      attempt e http socks 4 @ terminate (httpAt e 4) @ terminate (socksAt e 4))"
    using poll_again [of 4 e http socks] a(5) n(5) by (simp add: maxAttempts_def)
  finally show ?thesis .
qed

text \<open>
  C7. When both handles pass the liveness test in every attempt and the two socket
  files are never both found, the loop makes five attempts, each with the liveness test
  before the probes, waits 0, 100, 200 and 300 milliseconds between them, sends
  \<^verbatim>\<open>SIGTERM\<close> to both processes and fails with \<open>BridgeNotReady\<close>. The liveness test reads
  \<open>pid\<close> and \<open>killed\<close> only: a process that has exited keeps its pid, and \<open>killed\<close>
  is set only by a signal sent through the handle, so the exit of a bridge does not end
  the loop.
\<close>

theorem exited_bridge_is_not_detected:
  "(\<forall>i<maxAttempts. passesLivenessTest e i) \<and>
   (\<forall>i<maxAttempts. \<not> fst (socketsReady e http socks i)) \<longrightarrow>
   waitForSockets e http socks 0 trace =
     (Inl BridgeNotReady,
      trace @ attempt e http socks 0 @ [Sleep 0] @ attempt e http socks 1 @ [Sleep 100] @
      attempt e http socks 2 @ [Sleep 200] @ attempt e http socks 3 @ [Sleep 300] @
      attempt e http socks 4 @ terminate (httpAt e 4) @ terminate (socksAt e 4))"
  using poll_never_ready [of e http socks trace] by blast

theorem exited_bridge_is_not_detected_witness:
  "list_all (passesLivenessTest demoBridge) [0..<maxAttempts] \<and>
   list_all (\<lambda>i. \<not> fst (socketsReady demoBridge
       ''/tmp/claude-http-00c0ffee00c0ffee.sock'' ''/tmp/claude-socks-00c0ffee00c0ffee.sock'' i))
     [0..<maxAttempts] \<and>
   exitCode (httpAt demoBridge 1) = Some 1 \<and>
   initializeFreeBSDNetworkBridge demoHost demoBridge 3128 1080 0 =
     (Inl BridgeNotReady,
      [Spawn [''UNIX-LISTEN:/tmp/claude-http-00c0ffee00c0ffee.sock,fork,reuseaddr'',
              ''TCP:localhost:3128,keepalive,keepidle=10,keepintvl=5,keepcnt=3''],
       Spawn [''UNIX-LISTEN:/tmp/claude-socks-00c0ffee00c0ffee.sock,fork,reuseaddr'',
              ''TCP:localhost:1080,keepalive,keepidle=10,keepintvl=5,keepcnt=3''],
       Liveness 0, Probe 0 ''/tmp/claude-http-00c0ffee00c0ffee.sock'', Sleep 0,
       Liveness 1, Probe 1 ''/tmp/claude-http-00c0ffee00c0ffee.sock'', Sleep 100,
       Liveness 2, Probe 2 ''/tmp/claude-http-00c0ffee00c0ffee.sock'', Sleep 200,
       Liveness 3, Probe 3 ''/tmp/claude-http-00c0ffee00c0ffee.sock'', Sleep 300,
       Liveness 4, Probe 4 ''/tmp/claude-http-00c0ffee00c0ffee.sock'',
       Sigterm 4242, Sigterm 4243])"
proof -
  have alive: "\<forall>i<maxAttempts. passesLivenessTest demoBridge i"
    by (simp add: passesLivenessTest_def demoBridge_def hasPid_def)
  have absent: "\<forall>i<maxAttempts. \<not> fst (socketsReady demoBridge
       ''/tmp/claude-http-00c0ffee00c0ffee.sock'' ''/tmp/claude-socks-00c0ffee00c0ffee.sock'' i)"
    by (simp add: socketsReady_def demoBridge_def)
  have gone: "exitCode (httpAt demoBridge 1) = Some 1"
    by (simp add: demoBridge_def)
  have init: "initializeFreeBSDNetworkBridge demoHost demoBridge 3128 1080 0 =
     (Inl BridgeNotReady,
      [Spawn [''UNIX-LISTEN:/tmp/claude-http-00c0ffee00c0ffee.sock,fork,reuseaddr'',
              ''TCP:localhost:3128,keepalive,keepidle=10,keepintvl=5,keepcnt=3''],
       Spawn [''UNIX-LISTEN:/tmp/claude-socks-00c0ffee00c0ffee.sock,fork,reuseaddr'',
              ''TCP:localhost:1080,keepalive,keepidle=10,keepintvl=5,keepcnt=3''],
       Liveness 0, Probe 0 ''/tmp/claude-http-00c0ffee00c0ffee.sock'', Sleep 0,
       Liveness 1, Probe 1 ''/tmp/claude-http-00c0ffee00c0ffee.sock'', Sleep 100,
       Liveness 2, Probe 2 ''/tmp/claude-http-00c0ffee00c0ffee.sock'', Sleep 200,
       Liveness 3, Probe 3 ''/tmp/claude-http-00c0ffee00c0ffee.sock'', Sleep 300,
       Liveness 4, Probe 4 ''/tmp/claude-http-00c0ffee00c0ffee.sock'',
       Sigterm 4242, Sigterm 4243])"
    by code_simp
  from exited_bridge_is_not_detected [of demoBridge
      "''/tmp/claude-http-00c0ffee00c0ffee.sock''" "''/tmp/claude-socks-00c0ffee00c0ffee.sock''" "[]"]
    alive absent
  have "fst (waitForSockets demoBridge ''/tmp/claude-http-00c0ffee00c0ffee.sock''
      ''/tmp/claude-socks-00c0ffee00c0ffee.sock'' 0 []) = Inl BridgeNotReady"
    by simp
  with alive absent gone init show ?thesis by (simp add: list_all_iff)
qed

end
